theory Spec2Isabelle
  imports Complex_Main
begin

section \<open>JavaScript strings\<close>

text \<open>
  A JavaScript string is a sequence of UTF-16 code units. The development covers the
  strings whose code units are below 256 (ISO 8859-1): one \<^typ>\<open>char\<close> per code
  unit, so that \<open>length\<close> is the source's \<open>.length\<close>. Non-ASCII letters such as
  U+00FC are written \<open>CHR 0xFC\<close>.
\<close>

text \<open>\<open>String.prototype.includes\<close>: the argument occurs as a contiguous substring.\<close>

fun startsWith :: "string \<Rightarrow> string \<Rightarrow> bool" where
  "startsWith s [] = True"
| "startsWith [] (p # ps) = False"
| "startsWith (c # cs) (p # ps) = (c = p \<and> startsWith cs ps)"

fun includesStr :: "string \<Rightarrow> string \<Rightarrow> bool" where
  "includesStr [] sub = (sub = [])"
| "includesStr (c # cs) sub = (startsWith (c # cs) sub \<or> includesStr cs sub)"

text \<open>Decimal rendering of a natural number, as a template literal renders an integer.\<close>

definition digitChar :: "nat \<Rightarrow> char" where
  "digitChar d = char_of (48 + d)"

function showNat :: "nat \<Rightarrow> string" where
  "showNat n = (if n < 10 then [digitChar n] else showNat (n div 10) @ [digitChar (n mod 10)])"
  by pat_completeness auto
termination
  by (relation "measure (\<lambda>n. n)") auto

declare showNat.simps [simp del]

section \<open>Errors of the weather provider (WeatherService.js)\<close>

text \<open>
  An \<open>Error\<close> object as the provider and the classifier read it: its \<open>name\<close>, its
  \<open>message\<close>, and the optional properties \<open>status\<close> and \<open>type\<close> that the code
  attaches (\<open>None\<close> is \<open>undefined\<close>).
\<close>

record js_error =
  err_name :: string
  err_message :: string
  err_status :: "nat option"
  err_type :: "string option"

text \<open>
  \<open>makeApiRequest\<close>, the branch \<open>!response.ok\<close>: the error thrown for an HTTP
  status, \<open>new Error(`API request failed: ${response.status}`)\<close> with
  \<open>error.status = response.status\<close>.
\<close>

definition httpError :: "nat \<Rightarrow> js_error" where
  "httpError st =
     \<lparr>err_name = ''Error'', err_message = ''API request failed: '' @ showNat st,
      err_status = Some st, err_type = None\<rparr>"

text \<open>
  \<open>makeApiRequest\<close>, the \<open>catch\<close> block: an error named \<open>AbortError\<close> (the
  5000 ms timer fired \<open>controller.abort()\<close>) is replaced by
  \<open>new Error('Request timed out')\<close> with \<open>type = 'timeout'\<close>; every other error
  is rethrown as it is.
\<close>

definition timeoutMs :: nat where
  "timeoutMs = 5000"

definition timeoutError :: js_error where
  "timeoutError =
     \<lparr>err_name = ''Error'', err_message = ''Request timed out'',
      err_status = None, err_type = Some ''timeout''\<rparr>"

definition makeApiRequest_catch :: "js_error \<Rightarrow> js_error" where
  "makeApiRequest_catch error =
     (if err_name error = ''AbortError'' then timeoutError else error)"

text \<open>The error \<open>fetch\<close> rejects with when the 5000 ms timer aborts the request.\<close>

definition abortError :: js_error where
  "abortError =
     \<lparr>err_name = ''AbortError'', err_message = ''The user aborted a request.'',
      err_status = None, err_type = None\<rparr>"

text \<open>
  \<open>WeatherService.handleApiError\<close>: the user message and the type; the result is a
  fresh \<open>Error(userMessage)\<close> carrying \<open>type\<close> (and \<open>originalError\<close>), and no
  \<open>status\<close>.
\<close>

definition apiErrorKind :: "js_error \<Rightarrow> string \<times> string" where
  "apiErrorKind error =
     (if err_type error = Some ''timeout'' then
        (''Request timed out. Please try again.'', ''timeout'')
      else if err_status error \<noteq> None \<and> err_status error \<noteq> Some 0 then
        (let st = the (err_status error) in
         if st = 401 then
           (''Weather service authentication failed. Please check configuration.'', ''auth'')
         else if st = 404 then
           (''Location not found. Please check the spelling and try again.'', ''not_found'')
         else if st = 429 then
           (''Too many requests. Please wait a moment and try again.'', ''rate_limit'')
         else if st = 500 \<or> st = 502 \<or> st = 503 \<or> st = 504 then
           (''Weather service is currently unavailable. Please try again later.'',
            ''service_unavailable'')
         else (''Weather service error. Please try again.'', ''api_error''))
      else if err_message error \<noteq> [] \<and> includesStr (err_message error) ''Failed to fetch'' then
        (''Connection error. Please check your internet connection and try again.'',
         ''network'')
      else (''An unexpected error occurred. Please try again.'', ''unknown''))"

definition handleApiError :: "js_error \<Rightarrow> js_error" where
  "handleApiError error =
     \<lparr>err_name = ''Error'', err_message = fst (apiErrorKind error),
      err_status = None, err_type = Some (snd (apiErrorKind error))\<rparr>"

section \<open>Error classification (ErrorHandler.handleWeatherError)\<close>

record error_result =
  er_type :: string
  er_message :: string
  showRetry :: bool

text \<open>
  The chain of \<open>if\<close>/\<open>else if\<close> of \<open>handleWeatherError\<close>, in the source's
  order. \<open>error.status >= 500\<close> and \<open>error.status === 404\<close> are false when
  \<open>status\<close> is \<open>undefined\<close>.
\<close>

definition handleWeatherError :: "js_error \<Rightarrow> error_result" where
  "handleWeatherError error =
     (if err_name error = ''TypeError'' \<or> includesStr (err_message error) ''fetch'' then
        \<lparr>er_type = ''network'',
         er_message = ''Connection error. Please check your internet connection and try again.'',
         showRetry = True\<rparr>
      else if err_name error = ''TimeoutError'' \<or> includesStr (err_message error) ''timeout'' then
        \<lparr>er_type = ''timeout'', er_message = ''Request timed out. Please try again.'',
         showRetry = True\<rparr>
      else if err_status error = Some 404 \<or> includesStr (err_message error) ''not found'' then
        \<lparr>er_type = ''notfound'',
         er_message = ''Location not found. Please check the spelling and try again.'',
         showRetry = True\<rparr>
      else if (case err_status error of None \<Rightarrow> False | Some st \<Rightarrow> st \<ge> 500)
              \<or> includesStr (err_message error) ''service unavailable'' then
        \<lparr>er_type = ''service'',
         er_message = ''Weather service is currently unavailable. Please try again later.'',
         showRetry = True\<rparr>
      else if err_status error = Some 401 \<or> includesStr (err_message error) ''unauthorized'' then
        \<lparr>er_type = ''auth'',
         er_message = ''Authentication error. Please check API configuration.'',
         showRetry = False\<rparr>
      else
        \<lparr>er_type = ''unknown'',
         er_message = ''An unexpected error occurred. Please try again.'',
         showRetry = True\<rparr>)"

text \<open>
  The path of a failed request to the classifier: \<open>makeApiRequest\<close> throws,
  \<open>getCurrentWeather\<close>/\<open>getForecast\<close> rethrow \<open>handleApiError(error)\<close>,
  \<open>WeatherApp.handleSearch\<close> catches and \<open>WeatherApp.handleError\<close> hands the
  error to \<open>ErrorHandler.handleWeatherError\<close>.
\<close>

definition classifyProviderFailure :: "js_error \<Rightarrow> error_result" where
  "classifyProviderFailure thrown = handleWeatherError (handleApiError (makeApiRequest_catch thrown))"

section \<open>Location validation and formatting (LocationService.js)\<close>

text \<open>
  The character classes of the regular expressions, on code units below 256:
  \<open>\s\<close> is TAB, LF, VT, FF, CR, SPACE and U+00A0 (also what \<open>trim\<close> strips),
  \<open>\w\<close> is \<open>[A-Za-z0-9_]\<close>, and \<open>[-'.]\<close> is the punctuation class.
\<close>

definition isSpace :: "char \<Rightarrow> bool" where
  "isSpace c = (c \<in> set [CHR 0x09, CHR 0x0A, CHR 0x0B, CHR 0x0C, CHR 0x0D, CHR 0x20, CHR 0xA0])"

definition isAsciiLetter :: "char \<Rightarrow> bool" where
  "isAsciiLetter c = (let n = (of_char c :: nat) in (65 \<le> n \<and> n \<le> 90) \<or> (97 \<le> n \<and> n \<le> 122))"

definition isWordChar :: "char \<Rightarrow> bool" where
  "isWordChar c = (let n = (of_char c :: nat) in isAsciiLetter c \<or> (48 \<le> n \<and> n \<le> 57) \<or> n = 95)"

definition isPunct :: "char \<Rightarrow> bool" where
  "isPunct c = (c = CHR ''-'' \<or> c = CHR 0x27 \<or> c = CHR ''.'')"

definition trim :: "string \<Rightarrow> string" where
  "trim s = rev (dropWhile isSpace (rev (dropWhile isSpace s)))"

text \<open>\<open>/^[a-zA-Z\s\-'.]+$/.test(s)\<close>\<close>

definition validCityNamePattern :: "string \<Rightarrow> bool" where
  "validCityNamePattern s = (s \<noteq> [] \<and> list_all (\<lambda>c. isAsciiLetter c \<or> isSpace c \<or> isPunct c) s)"

text \<open>\<open>/\s{2,}/.test(s)\<close> and \<open>/[-'.]{2,}/.test(s)\<close>: two adjacent characters of the class.\<close>

fun hasRun2 :: "(char \<Rightarrow> bool) \<Rightarrow> string \<Rightarrow> bool" where
  "hasRun2 p (a # b # cs) = ((p a \<and> p b) \<or> hasRun2 p (b # cs))"
| "hasRun2 p cs = False"

record validation =
  isValid :: bool
  message :: string

definition validateLocationInput :: "string \<Rightarrow> validation" where
  "validateLocationInput input =
     (if input = [] then \<lparr>isValid = False, message = ''Please enter a city name''\<rparr>
      else let trimmedInput = trim input in
        if length trimmedInput = 0 then
          \<lparr>isValid = False, message = ''Please enter a city name''\<rparr>
        else if length trimmedInput < 2 then
          \<lparr>isValid = False, message = ''City name must be at least 2 characters long''\<rparr>
        else if length trimmedInput > 100 then
          \<lparr>isValid = False, message = ''City name is too long''\<rparr>
        else if \<not> validCityNamePattern trimmedInput then
          \<lparr>isValid = False,
           message = ''City name can only contain letters, spaces, hyphens, apostrophes, and periods''\<rparr>
        else if hasRun2 isSpace trimmedInput \<or> hasRun2 isPunct trimmedInput then
          \<lparr>isValid = False, message = ''Invalid city name format''\<rparr>
        else \<lparr>isValid = True, message = ''Valid city name''\<rparr>)"

definition validateCityNameFormat :: "string \<Rightarrow> bool" where
  "validateCityNameFormat cityName =
     (if cityName = [] then False
      else let trimmedName = trim cityName in
        validCityNamePattern trimmedName \<and> length trimmedName \<ge> 2 \<and> length trimmedName \<le> 100
        \<and> \<not> hasRun2 isSpace trimmedName \<and> \<not> hasRun2 isPunct trimmedName)"

text \<open>
  \<open>replace(/\s+/g, ' ')\<close>: every maximal run of whitespace becomes one space. The flag
  says that the previous character belonged to the current run.
\<close>

fun collapseSpaces :: "bool \<Rightarrow> string \<Rightarrow> string" where
  "collapseSpaces inRun [] = []"
| "collapseSpaces inRun (c # cs) =
     (if isSpace c then (if inRun then collapseSpaces True cs else CHR 0x20 # collapseSpaces True cs)
      else c # collapseSpaces False cs)"

text \<open>
  \<open>replace(/[-'\.]+/g, (match) => match[0])\<close>: every maximal run of punctuation
  becomes its first character.
\<close>

fun collapsePunct :: "bool \<Rightarrow> string \<Rightarrow> string" where
  "collapsePunct inRun [] = []"
| "collapsePunct inRun (c # cs) =
     (if isPunct c then (if inRun then collapsePunct True cs else c # collapsePunct True cs)
      else c # collapsePunct False cs)"

text \<open>
  \<open>replace(/\b\w/g, (char) => char.toUpperCase())\<close>: a word character that follows
  no word character is upper-cased. On \<open>\w\<close> only \<open>a\<close> to \<open>z\<close> change.
\<close>

definition toUpperWordChar :: "char \<Rightarrow> char" where
  "toUpperWordChar c =
     (let n = (of_char c :: nat) in if 97 \<le> n \<and> n \<le> 122 then char_of (n - 32) else c)"

fun capitalizeWords :: "bool \<Rightarrow> string \<Rightarrow> string" where
  "capitalizeWords prevWord [] = []"
| "capitalizeWords prevWord (c # cs) =
     (if isWordChar c \<and> \<not> prevWord then toUpperWordChar c else c)
       # capitalizeWords (isWordChar c) cs"

text \<open>
  \<open>replace(/\bXy\b/g, 'Xy.')\<close> for a two-letter word \<open>Xy\<close>: the two letters,
  preceded by no word character and followed by none, get a period appended. The
  scan goes on after the match.
\<close>

fun expandAbbreviation :: "char \<Rightarrow> char \<Rightarrow> bool \<Rightarrow> string \<Rightarrow> string" where
  "expandAbbreviation x y prevWord (c # d # cs) =
     (if \<not> prevWord \<and> c = x \<and> d = y \<and> (case cs of [] \<Rightarrow> True | e # _ \<Rightarrow> \<not> isWordChar e)
      then x # y # CHR ''.'' # expandAbbreviation x y True cs
      else c # expandAbbreviation x y (isWordChar c) (d # cs))"
| "expandAbbreviation x y prevWord cs = cs"

definition formatLocationName :: "string \<Rightarrow> string" where
  "formatLocationName name =
     (if name = [] then []
      else
        let formatted = trim name;
            formatted = collapseSpaces False formatted;
            formatted = collapsePunct False formatted;
            formatted = capitalizeWords False formatted;
            formatted = expandAbbreviation CHR ''S'' CHR ''t'' False formatted;
            formatted = expandAbbreviation CHR ''M'' CHR ''t'' False formatted;
            formatted = expandAbbreviation CHR ''F'' CHR ''t'' False formatted
        in formatted)"

text \<open>
  \<open>String.prototype.toLowerCase\<close> on code units below 256: \<open>A\<close> to \<open>Z\<close> and
  U+00C0 to U+00DE (without U+00D7) move up by 32.
\<close>

definition toLowerChar :: "char \<Rightarrow> char" where
  "toLowerChar c =
     (let n = (of_char c :: nat) in
      if (65 \<le> n \<and> n \<le> 90) \<or> (192 \<le> n \<and> n \<le> 222 \<and> n \<noteq> 215) then char_of (n + 32) else c)"

definition toLowerCase :: "string \<Rightarrow> string" where
  "toLowerCase s = map toLowerChar s"

text \<open>
  \<open>WeatherApp.handleSearch\<close>: \<open>normalizedCityName = cityName.toLowerCase().trim()\<close>,
  the key of the cache and of the pending requests.
\<close>

definition normalizedCityName :: "string \<Rightarrow> string" where
  "normalizedCityName cityName = trim (toLowerCase cityName)"

text \<open>
  \<open>SearchInterface.handleSearch\<close> (with \<open>LocationService\<close> loaded, as the page
  does). The first argument is the field \<open>isLoading\<close> of the search interface, the
  second the value of the input field. While a search is loading nothing happens; an
  input that fails validation is shown as a search error and goes no further; a valid
  one is formatted and handed to the \<open>onSearch\<close> callback, which is
  \<open>WeatherApp.handleSearch\<close>.
\<close>

datatype box_outcome =
    Ignored
  | SearchError string
  | OnSearch string

definition searchInterface_handleSearch :: "bool \<Rightarrow> string \<Rightarrow> box_outcome" where
  "searchInterface_handleSearch isLoading cityName =
     (if isLoading then Ignored
      else
        let validation = validateLocationInput cityName in
        if \<not> isValid validation then SearchError (message validation)
        else OnSearch (formatLocationName cityName))"

text \<open>
  The listener of \<open>weatherRetry\<close> in \<open>WeatherApp.setupEventListeners\<close>: the
  argument it calls \<open>WeatherApp.handleSearch\<close> with, for the current value of the
  input field; \<open>None\<close> when it makes no call.
\<close>

definition weatherRetry :: "string \<Rightarrow> string option" where
  "weatherRetry lastInput =
     (if lastInput \<noteq> [] \<and> trim lastInput \<noteq> [] then Some (trim lastInput) else None)"

text \<open>
  The key of the cache and of the pending requests that a typed query ends up with: from
  the search button (or the enter key), and from the retry button.
\<close>

definition searchKey :: "bool \<Rightarrow> string \<Rightarrow> string option" where
  "searchKey isLoading raw =
     (case searchInterface_handleSearch isLoading raw of
        OnSearch formattedCityName \<Rightarrow> Some (normalizedCityName formattedCityName)
      | _ \<Rightarrow> None)"

definition retryKey :: "string \<Rightarrow> string option" where
  "retryKey raw =
     (case weatherRetry raw of
        Some cityName \<Rightarrow> Some (normalizedCityName cityName)
      | None \<Rightarrow> None)"

section \<open>Numbers and built-ins of the runtime\<close>

text \<open>
  A JavaScript number as the forecast code meets it: a finite double (every finite
  double is a rational number) or an infinity; \<open>Math.max()\<close> of no argument is
  \<open>-Infinity\<close> and \<open>Math.min()\<close> is \<open>Infinity\<close>. \<open>Math.round\<close> gives the
  nearest integer, a tie going up.
\<close>

datatype js_number = Num rat | PosInfinity | NegInfinity

fun mathMax :: "rat list \<Rightarrow> js_number" where
  "mathMax [] = NegInfinity"
| "mathMax (x # xs) = Num (fold max xs x)"

fun mathMin :: "rat list \<Rightarrow> js_number" where
  "mathMin [] = PosInfinity"
| "mathMin (x # xs) = Num (fold min xs x)"

definition roundRat :: "rat \<Rightarrow> int" where
  "roundRat x = \<lfloor>x + 1 / 2\<rfloor>"

fun mathRound :: "js_number \<Rightarrow> js_number" where
  "mathRound (Num x) = Num (of_int (roundRat x))"
| "mathRound PosInfinity = PosInfinity"
| "mathRound NegInfinity = NegInfinity"

datatype js_exception = TypeError | RangeError

text \<open>
  \<open>new Date(dt * 1000).toISOString().split('T')[0]\<close> for an integer \<open>dt\<close> of
  seconds since the epoch. A time value beyond 8.64e15 ms is an invalid date, on which
  \<open>toISOString\<close> throws a \<open>RangeError\<close>. Otherwise the part before the \<open>T\<close>
  is the UTC calendar date of day \<open>dt div 86400\<close> in the proleptic Gregorian
  calendar: the year with four digits, or a sign and six digits outside 0 to 9999.
\<close>

definition utcDay :: "int \<Rightarrow> int" where
  "utcDay dt = dt div 86400"

definition civilFromDays :: "int \<Rightarrow> int \<times> int \<times> int" where
  "civilFromDays z0 =
     (let z = z0 + 719468;
          era = z div 146097;
          doe = z mod 146097;
          yoe = (doe - doe div 1460 + doe div 36524 - doe div 146096) div 365;
          doy = doe - (365 * yoe + yoe div 4 - yoe div 100);
          mp = (5 * doy + 2) div 153;
          d = doy - (153 * mp + 2) div 5 + 1;
          m = (if mp < 10 then mp + 3 else mp - 9);
          y = yoe + era * 400 + (if m \<le> 2 then 1 else 0)
      in (y, m, d))"

definition padNat :: "nat \<Rightarrow> nat \<Rightarrow> string" where
  "padNat width n = replicate (width - length (showNat n)) CHR ''0'' @ showNat n"

definition isoDate :: "int \<Rightarrow> string" where
  "isoDate day =
     (case civilFromDays day of (y, m, d) \<Rightarrow>
        (if 0 \<le> y \<and> y \<le> 9999 then padNat 4 (nat y)
         else (if y < 0 then ''-'' else ''+'') @ padNat 6 (nat \<bar>y\<bar>))
        @ ''-'' @ padNat 2 (nat m) @ ''-'' @ padNat 2 (nat d))"

definition dateKey :: "int \<Rightarrow> js_exception + string" where
  "dateKey dt =
     (if \<bar>dt * 1000\<bar> > 8640000000000000 then Inl RangeError else Inr (isoDate (utcDay dt)))"

section \<open>Most frequent condition and icon (WeatherService.js)\<close>

text \<open>
  The \<open>frequency\<close> object is the object literal \<open>{}\<close>, so it inherits the
  properties of \<open>Object.prototype\<close>: eleven functions and the accessor
  \<open>__proto__\<close>. A value of the object here is a number or a string.
\<close>

datatype js_value = Count nat | Text string

definition objectPrototypeNames :: "string list" where
  "objectPrototypeNames =
     [''__proto__'', ''constructor'', ''hasOwnProperty'', ''isPrototypeOf'',
      ''propertyIsEnumerable'', ''toLocaleString'', ''toString'', ''valueOf'',
      ''__defineGetter__'', ''__defineSetter__'', ''__lookupGetter__'', ''__lookupSetter__'']"

definition plainKey :: "string \<Rightarrow> bool" where
  "plainKey k = (k \<notin> set objectPrototypeNames)"

text \<open>
  The name of the function that \<open>Object.prototype\<close> holds under a key
  (\<open>constructor\<close> is \<open>Object\<close>), and the string such a function turns into when
  a number is added to it, as V8 prints it; other engines differ in the white space
  only, after the name.
\<close>

definition inheritedFunction :: "string \<Rightarrow> string option" where
  "inheritedFunction k =
     (if k = ''constructor'' then Some ''Object''
      else if k \<in> set (tl objectPrototypeNames) then Some k
      else None)"

definition nativeFunctionSource :: "string \<Rightarrow> string" where
  "nativeFunctionSource name = ''function '' @ name @ ''() { [native code] }''"

text \<open>
  \<open>frequency[c] = (frequency[c] || 0) + 1\<close> on the list of the own properties in
  insertion order. An own number is raised by one; an own string gets \<open>1\<close>
  appended. A key that is not an own property is appended: with the count 1 when
  nothing is inherited under it, with the inherited function's text and \<open>1\<close> when a
  function is. For \<open>__proto__\<close> the object read is truthy, and the string assigned
  is ignored by the setter: no own property appears.
\<close>

fun plusOne :: "js_value \<Rightarrow> js_value" where
  "plusOne (Count n) = Count (n + 1)"
| "plusOne (Text t) = Text (t @ ''1'')"

fun countUp :: "string \<Rightarrow> (string \<times> js_value) list \<Rightarrow> (string \<times> js_value) list" where
  "countUp c [] =
     (if c = ''__proto__'' then []
      else
        (case inheritedFunction c of
           None \<Rightarrow> [(c, Count 1)]
         | Some name \<Rightarrow> [(c, Text (nativeFunctionSource name @ ''1''))]))"
| "countUp c ((k, v) # rest) = (if k = c then (k, plusOne v) # rest else (k, v) # countUp c rest)"

definition frequencyOf :: "string list \<Rightarrow> (string \<times> js_value) list" where
  "frequencyOf values = foldl (\<lambda>frequency c. countUp c frequency) [] values"

text \<open>
  \<open>x > y\<close> on these values: two numbers by size, two strings by their code units
  (a proper prefix is the smaller), and false for a number against a string, which
  converts to \<open>NaN\<close> as no text of a function is a numeral. \<open>None\<close> is
  \<open>undefined\<close>.
\<close>

fun stringLess :: "string \<Rightarrow> string \<Rightarrow> bool" where
  "stringLess [] [] = False"
| "stringLess [] (y # ys) = True"
| "stringLess (x # xs) [] = False"
| "stringLess (x # xs) (y # ys) =
     ((of_char x :: nat) < of_char y \<or> (x = y \<and> stringLess xs ys))"

fun jsGreater :: "js_value option \<Rightarrow> js_value option \<Rightarrow> bool" where
  "jsGreater (Some (Count a)) (Some (Count b)) = (a > b)"
| "jsGreater (Some (Text a)) (Some (Text b)) = stringLess b a"
| "jsGreater x y = False"

text \<open>
  \<open>Object.keys\<close>: the keys that are array indices (the canonical decimal form of an
  integer below \<open>2^32 - 1\<close>) in ascending numeric order, then the other keys in
  insertion order.
\<close>

definition isDigit :: "char \<Rightarrow> bool" where
  "isDigit c = (let n = (of_char c :: nat) in 48 \<le> n \<and> n \<le> 57)"

definition parseIndex :: "string \<Rightarrow> int" where
  "parseIndex s = foldl (\<lambda>acc c. 10 * acc + (of_char c - 48)) 0 s"

definition isArrayIndex :: "string \<Rightarrow> bool" where
  "isArrayIndex s =
     (s \<noteq> [] \<and> list_all isDigit s \<and> (s = ''0'' \<or> hd s \<noteq> CHR ''0'') \<and> parseIndex s < 4294967295)"

definition objectKeys :: "(string \<times> 'v) list \<Rightarrow> string list" where
  "objectKeys obj =
     sort_key parseIndex (filter isArrayIndex (map fst obj))
       @ filter (\<lambda>k. \<not> isArrayIndex k) (map fst obj)"

text \<open>\<open>Array.prototype.reduce\<close> without an initial value: a \<open>TypeError\<close> on the empty array.\<close>

fun reduce :: "('a \<Rightarrow> 'a \<Rightarrow> 'a) \<Rightarrow> 'a list \<Rightarrow> js_exception + 'a" where
  "reduce f [] = Inl TypeError"
| "reduce f (x # xs) = Inr (foldl f x xs)"

definition getMostFrequentCondition :: "string list \<Rightarrow> js_exception + string" where
  "getMostFrequentCondition conditions =
     (let frequency = frequencyOf conditions in
      reduce (\<lambda>a b. if jsGreater (map_of frequency a) (map_of frequency b) then a else b)
        (objectKeys frequency))"

definition getMostFrequentIcon :: "string list \<Rightarrow> js_exception + string" where
  "getMostFrequentIcon icons =
     (let frequency = frequencyOf icons in
      reduce (\<lambda>a b. if jsGreater (map_of frequency a) (map_of frequency b) then a else b)
        (objectKeys frequency))"

text \<open>The number stored under a key, for the statements about counts.\<close>

definition countOf :: "(string \<times> js_value) list \<Rightarrow> string \<Rightarrow> nat" where
  "countOf frequency k = (case map_of frequency k of Some (Count n) \<Rightarrow> n | _ \<Rightarrow> 0)"

definition allCounts :: "(string \<times> js_value) list \<Rightarrow> bool" where
  "allCounts frequency = list_all (\<lambda>(k, v). case v of Count n \<Rightarrow> True | Text t \<Rightarrow> False) frequency"

text \<open>The values of a list in the order of their first occurrence.\<close>

fun firstBy :: "('a \<Rightarrow> 'k) \<Rightarrow> 'a list \<Rightarrow> 'a list" where
  "firstBy f [] = []"
| "firstBy f (x # xs) = x # filter (\<lambda>y. f y \<noteq> f x) (firstBy f xs)"

definition firstOccurrences :: "'a list \<Rightarrow> 'a list" where
  "firstOccurrences xs = firstBy (\<lambda>x. x) xs"

section \<open>Forecast transformation (WeatherService.transformForecastData)\<close>

text \<open>
  The parts of the provider's JSON that the code reads. An object that the code
  dereferences (\<open>item.main\<close>, \<open>apiResponse.city\<close>, \<open>apiResponse.sys\<close>) is an
  option: reading a property of \<open>undefined\<close> throws a \<open>TypeError\<close>, as does
  \<open>weather[0].main\<close> on an empty \<open>weather\<close> array.
\<close>

record weather_item =
  w_main :: string
  w_description :: string
  w_icon :: string

record forecast_item =
  fi_dt :: int
  fi_main :: "rat option"
  fi_weather :: "weather_item list"

record location =
  loc_name :: string
  loc_country :: string

record forecast_response =
  fr_list :: "forecast_item list"
  fr_city :: "location option"

record day_bucket =
  b_date :: string
  b_temps :: "rat list"
  b_conditions :: "string list"
  b_icons :: "string list"

record forecast_day =
  fd_date :: string
  highTemp :: js_number
  lowTemp :: js_number
  fd_condition :: string
  fd_icon :: string

record forecast_data =
  f_location :: location
  f_forecast :: "forecast_day list"

text \<open>
  \<open>dailyForecasts\<close>, as the list of its buckets in insertion order (its keys are date
  strings, none of them an array index). The body of the \<open>forEach\<close> for one sample:
  a bucket for the date is created at the end if there is none, then the sample's
  temperature, condition and icon are pushed onto the bucket's arrays.
\<close>

fun pushSample :: "string \<Rightarrow> rat \<Rightarrow> string \<Rightarrow> string \<Rightarrow> day_bucket list \<Rightarrow> day_bucket list" where
  "pushSample key t c i [] =
     [\<lparr>b_date = key, b_temps = [t], b_conditions = [c], b_icons = [i]\<rparr>]"
| "pushSample key t c i (b # bs) =
     (if b_date b = key
      then b\<lparr>b_temps := b_temps b @ [t], b_conditions := b_conditions b @ [c],
             b_icons := b_icons b @ [i]\<rparr> # bs
      else b # pushSample key t c i bs)"

fun groupByDate :: "forecast_item list \<Rightarrow> day_bucket list \<Rightarrow> js_exception + day_bucket list" where
  "groupByDate [] dailyForecasts = Inr dailyForecasts"
| "groupByDate (item # items) dailyForecasts =
     (case dateKey (fi_dt item) of
        Inl e \<Rightarrow> Inl e
      | Inr key \<Rightarrow>
          (case fi_main item of
             None \<Rightarrow> Inl TypeError
           | Some t \<Rightarrow>
               (case fi_weather item of
                  [] \<Rightarrow> Inl TypeError
                | w # _ \<Rightarrow> groupByDate items (pushSample key t (w_main w) (w_icon w) dailyForecasts))))"

definition toForecastDay :: "day_bucket \<Rightarrow> js_exception + forecast_day" where
  "toForecastDay day =
     (case getMostFrequentCondition (b_conditions day) of
        Inl e \<Rightarrow> Inl e
      | Inr c \<Rightarrow>
          (case getMostFrequentIcon (b_icons day) of
             Inl e \<Rightarrow> Inl e
           | Inr i \<Rightarrow>
               Inr \<lparr>fd_date = b_date day,
                    highTemp = mathRound (mathMax (b_temps day)),
                    lowTemp = mathRound (mathMin (b_temps day)),
                    fd_condition = c, fd_icon = i\<rparr>))"

text \<open>\<open>Array.prototype.map\<close> with a callback that may throw: the first exception ends it.\<close>

fun mapThrowing :: "('a \<Rightarrow> js_exception + 'b) \<Rightarrow> 'a list \<Rightarrow> js_exception + 'b list" where
  "mapThrowing f [] = Inr []"
| "mapThrowing f (x # xs) =
     (case f x of
        Inl e \<Rightarrow> Inl e
      | Inr y \<Rightarrow> (case mapThrowing f xs of Inl e \<Rightarrow> Inl e | Inr ys \<Rightarrow> Inr (y # ys)))"

definition transformForecastData :: "forecast_response \<Rightarrow> js_exception + forecast_data" where
  "transformForecastData apiResponse =
     (case groupByDate (fr_list apiResponse) [] of
        Inl e \<Rightarrow> Inl e
      | Inr dailyForecasts \<Rightarrow>
          (case mapThrowing toForecastDay (take 5 dailyForecasts) of
             Inl e \<Rightarrow> Inl e
           | Inr forecast \<Rightarrow>
               (case fr_city apiResponse of
                  None \<Rightarrow> Inl TypeError
                | Some city \<Rightarrow> Inr \<lparr>f_location = city, f_forecast = forecast\<rparr>)))"

section \<open>Current weather and the two provider calls (WeatherService.js)\<close>

record current_response =
  cr_name :: string
  cr_sys :: "string option"
  cr_main :: "(rat \<times> rat) option"
  cr_weather :: "weather_item list"
  cr_wind_speed_kmh :: "js_number option"

text \<open>
  \<open>cr_sys\<close> is \<open>sys.country\<close> when \<open>sys\<close> is there, \<open>cr_main\<close> is
  \<open>(main.temp, main.humidity)\<close> when \<open>main\<close> is there. The product
  \<open>apiResponse.wind?.speed * 3.6\<close> is one of double arithmetic, which is not
  embedded here: \<open>cr_wind_speed_kmh\<close> is the value the runtime computes for it,
  \<open>None\<close> when that is \<open>NaN\<close> (\<open>wind\<close> or its \<open>speed\<close> is missing).
\<close>

record current_conditions =
  temperature :: int
  condition :: string
  description :: string
  icon :: string
  humidity :: rat
  windSpeed :: js_number

record current_data =
  c_location :: location
  c_current :: current_conditions

text \<open>
  \<open>Math.round(apiResponse.wind?.speed * 3.6) || 0\<close>: \<open>NaN\<close> and a rounded
  value of zero give 0.
\<close>

definition orZero :: "js_number option \<Rightarrow> js_number" where
  "orZero x =
     (case x of
        None \<Rightarrow> Num 0
      | Some v \<Rightarrow> (if mathRound v = Num 0 then Num 0 else mathRound v))"

definition transformCurrentWeatherData :: "current_response \<Rightarrow> js_exception + current_data" where
  "transformCurrentWeatherData apiResponse =
     (case cr_sys apiResponse of
        None \<Rightarrow> Inl TypeError
      | Some country \<Rightarrow>
          (case cr_main apiResponse of
             None \<Rightarrow> Inl TypeError
           | Some (temp, hum) \<Rightarrow>
               (case cr_weather apiResponse of
                  [] \<Rightarrow> Inl TypeError
                | w # _ \<Rightarrow>
                    Inr \<lparr>c_location = \<lparr>loc_name = cr_name apiResponse, loc_country = country\<rparr>,
                         c_current =
                           \<lparr>temperature = roundRat temp,
                            condition = w_main w,
                            description = w_description w,
                            icon = w_icon w,
                            humidity = hum,
                            windSpeed = orZero (cr_wind_speed_kmh apiResponse)\<rparr>\<rparr>)))"

text \<open>
  An exception thrown inside the \<open>try\<close> of \<open>getCurrentWeather\<close> or
  \<open>getForecast\<close>, as the \<open>Error\<close> object that \<open>handleApiError\<close> receives.
\<close>

definition thrownError :: "js_exception \<Rightarrow> js_error" where
  "thrownError e =
     (case e of
        TypeError \<Rightarrow>
          \<lparr>err_name = ''TypeError'', err_message = ''Cannot read properties of undefined'',
           err_status = None, err_type = None\<rparr>
      | RangeError \<Rightarrow>
          \<lparr>err_name = ''RangeError'', err_message = ''Invalid time value'',
           err_status = None, err_type = None\<rparr>)"

definition plainError :: "string \<Rightarrow> js_error" where
  "plainError msg = \<lparr>err_name = ''Error'', err_message = msg, err_status = None, err_type = None\<rparr>"

text \<open>
  \<open>getCurrentWeather\<close> and \<open>getForecast\<close>. The third argument is what
  \<open>makeApiRequest(url)\<close> ends with: the error it throws or the JSON it returns.
  The two guards throw outside the \<open>try\<close>, so their errors are not wrapped.
\<close>

definition getCurrentWeather ::
    "string option \<Rightarrow> string \<Rightarrow> js_error + current_response \<Rightarrow> js_error + current_data" where
  "getCurrentWeather apiKey cityName response =
     (if apiKey = None \<or> apiKey = Some [] then Inl (plainError ''API key not configured'')
      else if cityName = [] \<or> trim cityName = [] then
        Inl (plainError ''Valid city name is required'')
      else
        (case response of
           Inl error \<Rightarrow> Inl (handleApiError error)
         | Inr apiResponse \<Rightarrow>
             (case transformCurrentWeatherData apiResponse of
                Inl e \<Rightarrow> Inl (handleApiError (thrownError e))
              | Inr currentWeather \<Rightarrow> Inr currentWeather)))"

definition getForecast ::
    "string option \<Rightarrow> string \<Rightarrow> js_error + forecast_response \<Rightarrow> js_error + forecast_data" where
  "getForecast apiKey cityName response =
     (if apiKey = None \<or> apiKey = Some [] then Inl (plainError ''API key not configured'')
      else if cityName = [] \<or> trim cityName = [] then
        Inl (plainError ''Valid city name is required'')
      else
        (case response of
           Inl error \<Rightarrow> Inl (handleApiError error)
         | Inr apiResponse \<Rightarrow>
             (case transformForecastData apiResponse of
                Inl e \<Rightarrow> Inl (handleApiError (thrownError e))
              | Inr forecastData \<Rightarrow> Inr forecastData)))"

section \<open>The application (WeatherApp.js)\<close>

record weather_data =
  wd_location :: location
  wd_current :: current_conditions
  wd_forecast :: "forecast_day list"

text \<open>
  \<open>fetchWeatherData\<close>: \<open>Promise.all\<close> of the two calls, then the merge. When both
  calls fail, the rejection that comes first in time is the one \<open>Promise.all\<close>
  rejects with; \<open>currentFailsFirst\<close> says which.
\<close>

definition fetchWeatherData ::
    "string option \<Rightarrow> string \<Rightarrow> js_error + current_response \<Rightarrow> js_error + forecast_response
      \<Rightarrow> bool \<Rightarrow> js_error + weather_data" where
  "fetchWeatherData apiKey cityName currentResponse forecastResponse currentFailsFirst =
     (case getCurrentWeather apiKey cityName currentResponse of
        Inl e \<Rightarrow>
          (case getForecast apiKey cityName forecastResponse of
             Inl e' \<Rightarrow> Inl (if currentFailsFirst then e else e')
           | Inr forecastData \<Rightarrow> Inl e)
      | Inr currentWeather \<Rightarrow>
          (case getForecast apiKey cityName forecastResponse of
             Inl e' \<Rightarrow> Inl e'
           | Inr forecastData \<Rightarrow>
               Inr \<lparr>wd_location = c_location currentWeather,
                    wd_current = c_current currentWeather,
                    wd_forecast = f_forecast forecastData\<rparr>))"

record cache_entry =
  ce_data :: weather_data
  ce_timestamp :: int

text \<open>
  The state of a \<open>WeatherApp\<close>. Times are milliseconds as \<open>Date.now()\<close> gives them.
  \<open>fetchCalls\<close> lists the calls of \<open>fetchWeatherData\<close> by their argument; the
  promise a call returns is named by the call's index in that list, and
  \<open>pendingRequests\<close> maps a key to the promise stored for it. \<open>displayed\<close> is
  the data last handed to \<open>displayWeatherData\<close>, \<open>shownError\<close> the error on
  display.
\<close>

record weather_app =
  isInitialized :: bool
  apiKey :: "string option"
  weatherCache :: "string \<rightharpoonup> cache_entry"
  pendingRequests :: "string \<rightharpoonup> nat"
  lastSearchedLocation :: "string option"
  fetchCalls :: "string list"
  displayed :: "weather_data option"
  shownError :: "error_result option"

definition cacheTimeout :: int where
  "cacheTimeout = 10 * 60 * 1000"

text \<open>The application after the constructor and \<open>initialize(apiKey)\<close>.\<close>

definition initialApp :: "string option \<Rightarrow> string option \<Rightarrow> weather_app" where
  "initialApp key lastLocation =
     \<lparr>isInitialized = True, apiKey = key, weatherCache = Map.empty,
      pendingRequests = Map.empty, lastSearchedLocation = lastLocation,
      fetchCalls = [], displayed = None, shownError = None\<rparr>"

text \<open>
  \<open>getCachedWeatherData\<close> at time \<open>now\<close>: the data of a valid entry; an expired entry
  is deleted and \<open>null\<close> returned. The second component is the cache afterwards.
\<close>

definition getCachedWeatherData ::
    "(string \<rightharpoonup> cache_entry) \<Rightarrow> string \<Rightarrow> int \<Rightarrow> weather_data option \<times> (string \<rightharpoonup> cache_entry)" where
  "getCachedWeatherData cache cityName now =
     (case cache cityName of
        None \<Rightarrow> (None, cache)
      | Some cacheEntry \<Rightarrow>
          (let isValidEntry = (now - ce_timestamp cacheEntry < cacheTimeout) in
           if \<not> isValidEntry then (None, cache(cityName := None))
           else (Some (ce_data cacheEntry), cache)))"

definition cleanupCache :: "(string \<rightharpoonup> cache_entry) \<Rightarrow> int \<Rightarrow> (string \<rightharpoonup> cache_entry)" where
  "cleanupCache cache now =
     (\<lambda>cityName.
        case cache cityName of
          None \<Rightarrow> None
        | Some cacheEntry \<Rightarrow>
            if now - ce_timestamp cacheEntry \<ge> cacheTimeout then None else Some cacheEntry)"

text \<open>
  \<open>cacheWeatherData\<close> reads the clock for the entry's timestamp (\<open>now\<close>), and
  \<open>cleanupCache\<close> reads it again (\<open>nowCleanup\<close>).
\<close>

definition cacheWeatherData ::
    "(string \<rightharpoonup> cache_entry) \<Rightarrow> string \<Rightarrow> weather_data \<Rightarrow> int \<Rightarrow> int \<Rightarrow> (string \<rightharpoonup> cache_entry)" where
  "cacheWeatherData cache cityName weatherData now nowCleanup =
     cleanupCache (cache(cityName \<mapsto> \<lparr>ce_data = weatherData, ce_timestamp = now\<rparr>)) nowCleanup"

text \<open>
  \<open>handleSearch\<close> is an \<open>async\<close> function. Its first part runs, without a
  suspension, from the call to the first \<open>await\<close> or \<open>return\<close>; it ends in one of
  four ways.
\<close>

datatype search_outcome =
    NotInitialized
  | CacheHit weather_data
  | Joined nat
  | Started nat

definition handleSearch :: "weather_app \<Rightarrow> string \<Rightarrow> int \<Rightarrow> search_outcome \<times> weather_app" where
  "handleSearch app cityName now =
     (if \<not> isInitialized app then (NotInitialized, app)
      else
        let key = normalizedCityName cityName;
            (cachedData, cache) = getCachedWeatherData (weatherCache app) key now;
            app = app\<lparr>weatherCache := cache\<rparr>
        in
          (case cachedData of
             Some weatherData \<Rightarrow>
               (CacheHit weatherData,
                app\<lparr>displayed := Some weatherData, lastSearchedLocation := Some cityName\<rparr>)
           | None \<Rightarrow>
               (case pendingRequests app key of
                  Some requestPromise \<Rightarrow> (Joined requestPromise, app)
                | None \<Rightarrow>
                    (let requestPromise = length (fetchCalls app) in
                     (Started requestPromise,
                      app\<lparr>shownError := None,
                          fetchCalls := fetchCalls app @ [cityName],
                          pendingRequests := (pendingRequests app)(key \<mapsto> requestPromise)\<rparr>)))))"

text \<open>
  The rest of the call that started a fetch, run when \<open>requestPromise\<close> has settled
  with \<open>result\<close>: on success the data is cached, saved as last location and
  displayed; the inner \<open>finally\<close> deletes the pending request on both paths; on
  failure the outer \<open>catch\<close> hands the error to \<open>handleError\<close>.
\<close>

definition handleSearch_resume ::
    "weather_app \<Rightarrow> string \<Rightarrow> js_error + weather_data \<Rightarrow> int \<Rightarrow> int \<Rightarrow> weather_app" where
  "handleSearch_resume app cityName result now nowCleanup =
     (let key = normalizedCityName cityName in
      case result of
        Inr weatherData \<Rightarrow>
          app\<lparr>weatherCache := cacheWeatherData (weatherCache app) key weatherData now nowCleanup,
              lastSearchedLocation := Some cityName,
              displayed := Some weatherData,
              pendingRequests := (pendingRequests app)(key := None)\<rparr>
      | Inl error \<Rightarrow>
          app\<lparr>pendingRequests := (pendingRequests app)(key := None),
              shownError := Some (handleWeatherError error)\<rparr>)"

text \<open>
  The rest of a call that joined a pending request
  (\<open>return await this.pendingRequests.get(...)\<close>): a failure reaches the same
  \<open>catch\<close>, a success changes nothing.
\<close>

definition handleSearch_joined :: "weather_app \<Rightarrow> js_error + weather_data \<Rightarrow> weather_app" where
  "handleSearch_joined app result =
     (case result of
        Inr weatherData \<Rightarrow> app
      | Inl error \<Rightarrow> app\<lparr>shownError := Some (handleWeatherError error)\<rparr>)"

definition clearCache :: "weather_app \<Rightarrow> weather_app" where
  "clearCache app = app\<lparr>weatherCache := Map.empty\<rparr>"

text \<open>
  The runs of the application on its single thread. Beside the state, a run keeps the
  calls of \<open>handleSearch\<close> that started a fetch and are suspended at
  \<open>await requestPromise\<close>: the promise and the city name of each. A step is a call of
  \<open>handleSearch\<close>, the resumption of a suspended call when its promise has settled,
  the resumption of a joined call, or \<open>clearCache\<close>.
\<close>

inductive reachable :: "weather_app \<times> (nat \<times> string) list \<Rightarrow> bool" where
  start: "reachable (initialApp key lastLocation, [])"
| search:
    "reachable (app, running) \<Longrightarrow> handleSearch app cityName now = (outcome, app')
     \<Longrightarrow> reachable (app',
           (case outcome of Started p \<Rightarrow> running @ [(p, cityName)] | _ \<Rightarrow> running))"
| settle:
    "reachable (app, running) \<Longrightarrow> (p, cityName) \<in> set running
     \<Longrightarrow> reachable (handleSearch_resume app cityName result now nowCleanup,
           remove1 (p, cityName) running)"
| joined:
    "reachable (app, running) \<Longrightarrow> reachable (handleSearch_joined app result, running)"
| cleared:
    "reachable (app, running) \<Longrightarrow> reachable (clearCache app, running)"

section \<open>Runs: the calls in flight\<close>

text \<open>The keys of the suspended calls, and what holds of them in every state of a run.\<close>

definition keysOf :: "(nat \<times> string) list \<Rightarrow> string list" where
  "keysOf running = map (normalizedCityName \<circ> snd) running"

definition invariant :: "weather_app \<times> (nat \<times> string) list \<Rightarrow> bool" where
  "invariant sys = (case sys of (app, running) \<Rightarrow>
     isInitialized app \<and> distinct (keysOf running)
     \<and> dom (pendingRequests app) = set (keysOf running)
     \<and> (\<forall>p c. (p, c) \<in> set running \<longrightarrow>
           pendingRequests app (normalizedCityName c) = Some p
           \<and> weatherCache app (normalizedCityName c) = None))"

section \<open>Runs with the HTTP requests\<close>

datatype request_kind = CurrentRequest | ForecastRequest

text \<open>
  The HTTP requests that a call of \<open>fetchWeatherData\<close> opens, each named by the
  promise of the call, the city name and its kind: \<open>getCurrentWeather\<close> and
  \<open>getForecast\<close> call \<open>fetch\<close> once each, unless their guards throw first (no
  API key, or a city name that is empty after \<open>trim\<close>).
\<close>

definition requestsOf :: "weather_app \<Rightarrow> nat \<Rightarrow> string \<Rightarrow> (nat \<times> string \<times> request_kind) list" where
  "requestsOf app p cityName =
     (if apiKey app = None \<or> apiKey app = Some [] \<or> cityName = [] \<or> trim cityName = [] then []
      else [(p, cityName, CurrentRequest), (p, cityName, ForecastRequest)])"

text \<open>
  When the promise of \<open>fetchWeatherData\<close> can have settled with a result, given the
  requests that are open: \<open>Promise.all\<close> fulfils when both calls have returned, so
  neither request is open any more; it rejects as soon as one call has failed, so at
  most one of the two is still open. Nothing ends that other request then but its
  response or its own 5000 ms timer.
\<close>

definition maySettle ::
    "js_error + weather_data \<Rightarrow> nat \<Rightarrow> string \<Rightarrow> (nat \<times> string \<times> request_kind) list \<Rightarrow> bool" where
  "maySettle result p cityName requests =
     (case result of
        Inr weatherData \<Rightarrow>
          (p, cityName, CurrentRequest) \<notin> set requests
          \<and> (p, cityName, ForecastRequest) \<notin> set requests
      | Inl error \<Rightarrow>
          (p, cityName, CurrentRequest) \<notin> set requests
          \<or> (p, cityName, ForecastRequest) \<notin> set requests)"

text \<open>
  The runs of the application together with the open HTTP requests. The steps are those
  of \<open>reachable\<close>; a call that starts a fetch opens its requests, a suspended call
  resumes only when its promise can have settled, and an open request may end at any
  time.
\<close>

inductive reachableNet ::
    "weather_app \<times> (nat \<times> string) list \<times> (nat \<times> string \<times> request_kind) list \<Rightarrow> bool" where
  net_start: "reachableNet (initialApp key lastLocation, [], [])"
| net_search:
    "reachableNet (app, running, requests) \<Longrightarrow> handleSearch app cityName now = (outcome, app')
     \<Longrightarrow> reachableNet (app',
           (case outcome of Started p \<Rightarrow> running @ [(p, cityName)] | _ \<Rightarrow> running),
           (case outcome of Started p \<Rightarrow> requests @ requestsOf app p cityName | _ \<Rightarrow> requests))"
| net_request_ends:
    "reachableNet (app, running, requests) \<Longrightarrow> r \<in> set requests
     \<Longrightarrow> reachableNet (app, running, remove1 r requests)"
| net_settle:
    "reachableNet (app, running, requests) \<Longrightarrow> (p, cityName) \<in> set running
     \<Longrightarrow> maySettle result p cityName requests
     \<Longrightarrow> reachableNet (handleSearch_resume app cityName result now nowCleanup,
           remove1 (p, cityName) running, requests)"
| net_joined:
    "reachableNet (app, running, requests)
     \<Longrightarrow> reachableNet (handleSearch_joined app result, running, requests)"
| net_cleared:
    "reachableNet (app, running, requests) \<Longrightarrow> reachableNet (clearCache app, running, requests)"

section \<open>Example data\<close>

text \<open>
  Eight three-hour samples on two UTC dates (15 and 16 November 2023) with the
  temperatures 10, 12, 15, 9 and 20, 22, 18, 16; a current-weather response for London
  (18.4 degrees, wind 5 m/s, which the runtime multiplies to 18); and the snapshot the application builds from them. The
  forecast endpoint answers with another London than the current-weather endpoint.
\<close>

definition sample :: "int \<Rightarrow> rat \<Rightarrow> string \<Rightarrow> string \<Rightarrow> forecast_item" where
  "sample dt t c i =
     \<lparr>fi_dt = dt, fi_main = Some t,
      fi_weather = [\<lparr>w_main = c, w_description = c, w_icon = i\<rparr>]\<rparr>"

definition twoDays :: "forecast_item list" where
  "twoDays =
     [sample 1700006400 10 ''Rain'' ''10d'', sample 1700017200 12 ''Rain'' ''10d'',
      sample 1700028000 15 ''Clouds'' ''04d'', sample 1700038800 9 ''Clouds'' ''04n'',
      sample 1700092800 20 ''Clear'' ''01d'', sample 1700103600 22 ''Clear'' ''01d'',
      sample 1700114400 18 ''Clear'' ''01d'', sample 1700125200 16 ''Clouds'' ''04n'']"

definition londonForecast :: forecast_response where
  "londonForecast = \<lparr>fr_list = twoDays, fr_city = Some \<lparr>loc_name = ''London'', loc_country = ''CA''\<rparr>\<rparr>"

definition londonCurrent :: current_response where
  "londonCurrent =
     \<lparr>cr_name = ''London'', cr_sys = Some ''GB'', cr_main = Some (184 / 10, 60),
      cr_weather = [\<lparr>w_main = ''Clouds'', w_description = ''few clouds'', w_icon = ''02d''\<rparr>],
      cr_wind_speed_kmh = Some (Num 18)\<rparr>"

definition londonDays :: "forecast_day list" where
  "londonDays =
     [\<lparr>fd_date = ''2023-11-15'', highTemp = Num 15, lowTemp = Num 9,
       fd_condition = ''Clouds'', fd_icon = ''10d''\<rparr>,
      \<lparr>fd_date = ''2023-11-16'', highTemp = Num 22, lowTemp = Num 16,
       fd_condition = ''Clear'', fd_icon = ''01d''\<rparr>]"

definition london :: weather_data where
  "london =
     \<lparr>wd_location = \<lparr>loc_name = ''London'', loc_country = ''GB''\<rparr>,
      wd_current =
        \<lparr>temperature = 18, condition = ''Clouds'', description = ''few clouds'',
         icon = ''02d'', humidity = 60, windSpeed = Num 18\<rparr>,
      wd_forecast = londonDays\<rparr>"

text \<open>The application after a first call for London, and after its fetch has succeeded.\<close>

definition searching :: weather_app where
  "searching =
     (initialApp (Some ''k'') None)
       \<lparr>shownError := None, fetchCalls := [''London''], pendingRequests := [''london'' \<mapsto> 0]\<rparr>"

definition loaded :: weather_app where
  "loaded = handleSearch_resume searching ''London'' (Inr london) 1000 1000"

text \<open>
  The application after the current-weather request of that first call has failed with
  status 404 and the call has resumed, and after a second call for London.
\<close>

definition failed :: weather_app where
  "failed = handleSearch_resume searching ''London'' (Inl (handleApiError (httpError 404))) 250 250"

definition retried :: weather_app where
  "retried =
     failed\<lparr>shownError := None, fetchCalls := [''London'', ''London''],
            pendingRequests := [''london'' \<mapsto> 1]\<rparr>"

text \<open>
  Two samples that come with the later date first; and three samples of one date whose
  highest and lowest temperatures lie half way between two integers.
\<close>

definition outOfOrder :: forecast_response where
  "outOfOrder =
     \<lparr>fr_list = [sample 1700092800 20 ''Clear'' ''01d'', sample 1700006400 10 ''Rain'' ''10d''],
      fr_city = Some \<lparr>loc_name = ''London'', loc_country = ''GB''\<rparr>\<rparr>"

definition halves :: forecast_response where
  "halves =
     \<lparr>fr_list =
        [sample 1700006400 (29 / 2) ''Clouds'' ''04d'', sample 1700017200 (- 5 / 2) ''Snow'' ''13n'',
         sample 1700028000 (87 / 10) ''Clouds'' ''04d''],
      fr_city = Some \<lparr>loc_name = ''London'', loc_country = ''GB''\<rparr>\<rparr>"

section \<open>What the forecast transformation computes\<close>

text \<open>
  The date of a sample, the samples of a date, and the bucket of a date as the loop of
  \<open>transformForecastData\<close> leaves it: the temperatures, conditions and icons of
  that date's samples, in the order of the samples. \<open>wellFormed\<close> holds of a sample
  the transformation does not throw on: a time in the range of \<open>Date\<close>, a
  \<open>main\<close> object, a first \<open>weather\<close> element, and a condition and an icon other
  than \<open>__proto__\<close> (a bucket of nothing else has no key to select from).
\<close>

definition dateOf :: "forecast_item \<Rightarrow> string" where
  "dateOf item = isoDate (utcDay (fi_dt item))"

definition samplesOn :: "string \<Rightarrow> forecast_item list \<Rightarrow> forecast_item list" where
  "samplesOn key items = filter (\<lambda>item. dateOf item = key) items"

definition tempOf :: "forecast_item \<Rightarrow> rat" where
  "tempOf item = the (fi_main item)"

definition bucketOf :: "forecast_item list \<Rightarrow> string \<Rightarrow> day_bucket" where
  "bucketOf items key =
     \<lparr>b_date = key,
      b_temps = map tempOf (samplesOn key items),
      b_conditions = map (\<lambda>item. w_main (hd (fi_weather item))) (samplesOn key items),
      b_icons = map (\<lambda>item. w_icon (hd (fi_weather item))) (samplesOn key items)\<rparr>"

definition bucketsOf :: "forecast_item list \<Rightarrow> day_bucket list" where
  "bucketsOf items = map (bucketOf items) (firstOccurrences (map dateOf items))"

definition wellFormed :: "forecast_item \<Rightarrow> bool" where
  "wellFormed item =
     (\<bar>fi_dt item * 1000\<bar> \<le> 8640000000000000 \<and> fi_main item \<noteq> None \<and> fi_weather item \<noteq> []
      \<and> w_main (hd (fi_weather item)) \<noteq> ''__proto__''
      \<and> w_icon (hd (fi_weather item)) \<noteq> ''__proto__'')"

section \<open>Properties of the error classification\<close>

text \<open>
  Claim C1. The classification table (404 is NotFound and retryable, 401 is Unauthorized
  and not retryable, 503 is ServiceUnavailable and retryable, an abort after the 5000 ms
  timeout is Timeout and retryable) holds for the HTTP errors handed to the classifier as
  \<open>makeApiRequest\<close> throws them, but not after the provider's wrapping, which is the
  path every failed request takes: there \<open>handleApiError\<close> drops \<open>status\<close> and
  writes messages that hold none of the substrings the classifier looks for, so that
  401, 503 and the timeout are all classified \<open>unknown\<close> with the retry button shown;
  only 404 keeps its class. The timeout is \<open>unknown\<close> even without the wrapping.
  The user then reads the message for an unexpected error, where the design document of
  the repository gives \<open>Weather service is currently unavailable. Please try again
  later.\<close> for an unavailable service and \<open>Request timed out. Please try
  again.\<close> for a timeout.
\<close>

theorem provider_wrapped_errors_classified_unknown:
  "er_type (handleWeatherError (httpError 404)) = ''notfound''
   \<and> showRetry (handleWeatherError (httpError 404))
   \<and> er_type (handleWeatherError (httpError 401)) = ''auth''
   \<and> \<not> showRetry (handleWeatherError (httpError 401))
   \<and> er_type (handleWeatherError (httpError 503)) = ''service''
   \<and> showRetry (handleWeatherError (httpError 503))
   \<and> er_type (classifyProviderFailure (httpError 404)) = ''notfound''
   \<and> showRetry (classifyProviderFailure (httpError 404))
   \<and> er_type (classifyProviderFailure (httpError 401)) = ''unknown''
   \<and> showRetry (classifyProviderFailure (httpError 401))
   \<and> er_type (classifyProviderFailure (httpError 503)) = ''unknown''
   \<and> er_type (classifyProviderFailure abortError) = ''unknown''
   \<and> er_type (handleWeatherError (makeApiRequest_catch abortError)) = ''unknown''
   \<and> er_message (classifyProviderFailure (httpError 503))
       = ''An unexpected error occurred. Please try again.''
   \<and> er_message (classifyProviderFailure abortError)
       = ''An unexpected error occurred. Please try again.''"
  by code_simp

section \<open>Properties of the location service\<close>

lemma mem_dropWhile: "c \<in> set s \<Longrightarrow> \<not> p c \<Longrightarrow> c \<in> set (dropWhile p s)"
  by (induction s) auto

lemma mem_trim: "c \<in> set s \<Longrightarrow> \<not> isSpace c \<Longrightarrow> c \<in> set (trim s)"
  unfolding trim_def by (simp add: mem_dropWhile)

lemma pattern_rejects:
  "c \<in> set s \<Longrightarrow> \<not> isAsciiLetter c \<Longrightarrow> \<not> isSpace c \<Longrightarrow> \<not> isPunct c
   \<Longrightarrow> \<not> validCityNamePattern s"
  by (auto simp: validCityNamePattern_def list_all_iff)

text \<open>
  Claim C4. \<open>formatLocationName\<close> is not idempotent on the inputs the validator
  accepts: \<open>st\<close> is accepted and formatted to \<open>St.\<close>, and formatting \<open>St.\<close>
  appends a second period, \<open>St..\<close>, because \<open>/\bSt\b/\<close> also matches an
  abbreviation that already has its period. The second result is a string that the
  validator itself rejects as two adjacent punctuation characters.
\<close>

theorem formatLocationName_not_idempotent_on_st:
  "isValid (validateLocationInput ''st'')
   \<and> formatLocationName ''st'' = ''St.''
   \<and> formatLocationName (formatLocationName ''st'') = ''St..''
   \<and> formatLocationName (formatLocationName ''st'') \<noteq> formatLocationName ''st''
   \<and> isValid (validateLocationInput ''St. Louis'')
   \<and> formatLocationName ''St. Louis'' = ''St.. Louis''
   \<and> \<not> isValid (validateLocationInput (formatLocationName ''St. Louis''))"
  by code_simp

lemma isSpace_code: "isSpace c \<longleftrightarrow> (of_char c :: nat) \<in> {9, 10, 11, 12, 13, 32, 160}"
proof -
  have e: "c = d \<longleftrightarrow> (of_char c :: nat) = of_char d" for d :: char
    by auto
  show ?thesis by (simp add: isSpace_def e)
qed

lemma isSpace_toLowerChar: "isSpace (toLowerChar c) = isSpace c"
proof -
  have lt: "(of_char c :: nat) < 256" by simp
  show ?thesis
    unfolding isSpace_code toLowerChar_def Let_def using lt
    by (auto simp: mod_if)
qed

lemma dropWhile_isSpace_toLowerCase:
  "dropWhile isSpace (toLowerCase s) = toLowerCase (dropWhile isSpace s)"
  by (induction s) (simp_all add: toLowerCase_def isSpace_toLowerChar)

lemma toLowerCase_rev: "toLowerCase (rev s) = rev (toLowerCase s)"
  by (simp add: toLowerCase_def rev_map)

lemma trim_toLowerCase: "trim (toLowerCase s) = toLowerCase (trim s)"
  by (simp add: trim_def dropWhile_isSpace_toLowerCase toLowerCase_rev [symmetric])

lemma toLowerCase_eq_Nil: "toLowerCase s = [] \<longleftrightarrow> s = []"
  by (simp add: toLowerCase_def)

lemma retryKey_fold:
  assumes "toLowerCase x = toLowerCase y"
  shows "retryKey x = retryKey y"
proof -
  have t: "toLowerCase (trim x) = toLowerCase (trim y)"
    using assms by (simp add: trim_toLowerCase [symmetric])
  have e: "x = [] \<longleftrightarrow> y = []"
    using assms toLowerCase_eq_Nil by metis
  have te: "trim x = [] \<longleftrightarrow> trim y = []"
    using t toLowerCase_eq_Nil by metis
  show ?thesis
    using t e te by (simp add: retryKey_def weatherRetry_def normalizedCityName_def)
qed

text \<open>
  Claim C5, as the code has it. The key of the cache and of the pending requests is
  \<open>toLowerCase().trim()\<close> of the string that \<open>WeatherApp.handleSearch\<close> receives.
  From the search button that string is \<open>formatLocationName(raw)\<close> (when no search is
  loading and the input is valid), so the key folds the formatted name and not the raw
  input; from the retry button it is the raw trimmed input, so there the key is the case
  fold of the raw trimmed input. Two strings handed to \<open>WeatherApp.handleSearch\<close>
  that differ only in letter case have the same key, and a call for one ends as a call
  for the other does (the same cache hit, the same joined request); and two raw inputs
  that differ only in letter case get the same key from the retry button.
\<close>

theorem cache_key_is_fold_of_formatted_name:
  "(searchInterface_handleSearch isLoading raw = OnSearch formatted \<longrightarrow>
       \<not> isLoading \<and> isValid (validateLocationInput raw)
       \<and> formatted = formatLocationName raw
       \<and> searchKey isLoading raw = Some (trim (toLowerCase (formatLocationName raw))))
   \<and> (weatherRetry lastInput = Some cityName \<longrightarrow>
       cityName = trim lastInput
       \<and> retryKey lastInput = Some (trim (toLowerCase (trim lastInput))))
   \<and> (toLowerCase x = toLowerCase y \<longrightarrow>
       normalizedCityName x = normalizedCityName y
       \<and> fst (handleSearch app x now) = fst (handleSearch app y now)
       \<and> retryKey x = retryKey y)"
proof -
  have a: "searchInterface_handleSearch isLoading raw = OnSearch formatted \<longrightarrow>
       \<not> isLoading \<and> isValid (validateLocationInput raw)
       \<and> formatted = formatLocationName raw
       \<and> searchKey isLoading raw = Some (trim (toLowerCase (formatLocationName raw)))"
    by (auto simp: searchKey_def searchInterface_handleSearch_def normalizedCityName_def Let_def
        split: if_splits)
  have b: "weatherRetry lastInput = Some cityName \<longrightarrow>
       cityName = trim lastInput
       \<and> retryKey lastInput = Some (trim (toLowerCase (trim lastInput)))"
    by (auto simp: retryKey_def weatherRetry_def normalizedCityName_def split: if_splits)
  have c: "toLowerCase x = toLowerCase y \<longrightarrow>
       normalizedCityName x = normalizedCityName y
       \<and> fst (handleSearch app x now) = fst (handleSearch app y now)
       \<and> retryKey x = retryKey y"
  proof
    assume e: "toLowerCase x = toLowerCase y"
    then have k: "normalizedCityName x = normalizedCityName y"
      by (simp add: normalizedCityName_def)
    have "fst (handleSearch app x now) = fst (handleSearch app y now)"
      by (auto simp: handleSearch_def Let_def k split: prod.splits option.splits)
    with k retryKey_fold [OF e] show "normalizedCityName x = normalizedCityName y
       \<and> fst (handleSearch app x now) = fst (handleSearch app y now)
       \<and> retryKey x = retryKey y" by simp
  qed
  from a b c show ?thesis by (intro conjI)
qed

lemma key_London: "normalizedCityName ''London'' = ''london''"
  by code_simp

lemma key_london_space: "normalizedCityName ''london '' = ''london''"
  by code_simp

lemma key_LONDON: "normalizedCityName ''LONDON'' = ''london''"
  by code_simp

theorem cache_key_is_fold_of_formatted_name_witness:
  "searchInterface_handleSearch False ''st louis'' = OnSearch ''St. Louis''
   \<and> searchKey False ''st louis'' = Some (trim (toLowerCase (formatLocationName ''st louis'')))
   \<and> weatherRetry '' st louis'' = Some ''st louis''
   \<and> retryKey '' st louis'' = Some (trim (toLowerCase (trim '' st louis'')))
   \<and> toLowerCase ''LONDON'' = toLowerCase ''London''
   \<and> normalizedCityName ''LONDON'' = normalizedCityName ''London''
   \<and> fst (handleSearch loaded ''LONDON'' 2000) = fst (handleSearch loaded ''London'' 2000)
   \<and> retryKey ''LONDON'' = retryKey ''London''"
proof -
  have a: "searchInterface_handleSearch False ''st louis'' = OnSearch ''St. Louis''" by code_simp
  have b: "weatherRetry '' st louis'' = Some ''st louis''" by code_simp
  have c: "toLowerCase ''LONDON'' = toLowerCase ''London''" by code_simp
  note t = cache_key_is_fold_of_formatted_name
  show ?thesis
    using t [where isLoading = False and raw = "''st louis''" and formatted = "''St. Louis''"
        and lastInput = "'' st louis''" and cityName = "''st louis''"
        and x = "''LONDON''" and y = "''London''" and app = loaded and now = 2000] a b c
    by simp
qed

text \<open>
  Claim C5 as the specification states it fails. \<open>st louis\<close> and \<open>ST LOUIS\<close> differ
  only in letter case and are both accepted, yet the search button gives them the keys
  \<open>st. louis\<close> and \<open>st louis\<close>: the abbreviation rule matches \<open>St\<close> and not
  \<open>ST\<close>. The key of \<open>st louis\<close> from the search button is not the fold of the
  raw trimmed input, which is its key from the retry button. And \<open>St\<close> and \<open>St.\<close>,
  handed over as they are by the retry button, have the keys \<open>st\<close> and \<open>st.\<close>.
\<close>

theorem cache_key_counterexample:
  "toLowerCase ''st louis'' = toLowerCase ''ST LOUIS''
   \<and> searchKey False ''st louis'' = Some ''st. louis''
   \<and> searchKey False ''ST LOUIS'' = Some ''st louis''
   \<and> searchKey False ''st louis'' \<noteq> Some (trim (toLowerCase (trim ''st louis'')))
   \<and> retryKey ''st louis'' = Some ''st louis''
   \<and> retryKey ''St'' = Some ''st''
   \<and> retryKey ''St.'' = Some ''st.''"
  by code_simp

text \<open>
  Claim C9. The validator's letter class is ASCII only: an input that holds a
  character which is neither \<open>A\<close> to \<open>Z\<close>, \<open>a\<close> to \<open>z\<close>, whitespace nor one
  of hyphen, apostrophe and period is reported invalid, by \<open>validateLocationInput\<close>
  and by \<open>validateCityNameFormat\<close>. Every letter outside ASCII is such a character.
\<close>

theorem validator_rejects_non_ascii_letters:
  assumes "c \<in> set input" and "\<not> isAsciiLetter c" and "\<not> isSpace c" and "\<not> isPunct c"
  shows "\<not> isValid (validateLocationInput input) \<and> \<not> validateCityNameFormat input"
proof -
  have "\<not> validCityNamePattern (trim input)"
    using assms by (intro pattern_rejects [of c]) (simp_all add: mem_trim)
  then show ?thesis
    by (simp add: validateLocationInput_def validateCityNameFormat_def Let_def)
qed

text \<open>
  The witness: \<open>Z\<close>, U+00FC, \<open>rich\<close> is rejected because of U+00FC; and
  \<open>S\<close>, U+00E3, \<open>o Paulo\<close> gets the message about the allowed characters.
\<close>

theorem validator_rejects_non_ascii_letters_witness:
  "CHR 0xFC \<in> set (''Z'' @ [CHR 0xFC] @ ''rich'')
   \<and> \<not> isAsciiLetter (CHR 0xFC) \<and> \<not> isSpace (CHR 0xFC) \<and> \<not> isPunct (CHR 0xFC)
   \<and> \<not> isValid (validateLocationInput (''Z'' @ [CHR 0xFC] @ ''rich''))
   \<and> \<not> validateCityNameFormat (''Z'' @ [CHR 0xFC] @ ''rich'')
   \<and> message (validateLocationInput (''S'' @ [CHR 0xE3] @ ''o Paulo''))
       = ''City name can only contain letters, spaces, hyphens, apostrophes, and periods''"
proof -
  have a: "CHR 0xFC \<in> set (''Z'' @ [CHR 0xFC] @ ''rich'')" by simp
  have b: "\<not> isAsciiLetter (CHR 0xFC)" by code_simp
  have c: "\<not> isSpace (CHR 0xFC)" by code_simp
  have d: "\<not> isPunct (CHR 0xFC)" by code_simp
  have e: "message (validateLocationInput (''S'' @ [CHR 0xE3] @ ''o Paulo''))
       = ''City name can only contain letters, spaces, hyphens, apostrophes, and periods''"
    by code_simp
  show ?thesis
    using validator_rejects_non_ascii_letters [OF a b c d] a b c d e by blast
qed

section \<open>Properties of the merged snapshot\<close>

lemma transform_twoDays:
  "transformForecastData londonForecast
     = Inr \<lparr>f_location = \<lparr>loc_name = ''London'', loc_country = ''CA''\<rparr>, f_forecast = londonDays\<rparr>"
  by code_simp

lemma current_london:
  "getCurrentWeather (Some ''k'') ''London'' (Inr londonCurrent)
     = Inr \<lparr>c_location = wd_location london, c_current = wd_current london\<rparr>"
  by code_simp

lemma forecast_london:
  "getForecast (Some ''k'') ''London'' (Inr londonForecast)
     = Inr \<lparr>f_location = \<lparr>loc_name = ''London'', loc_country = ''CA''\<rparr>, f_forecast = londonDays\<rparr>"
proof -
  have "trim ''London'' \<noteq> []" by code_simp
  then show ?thesis by (simp add: getForecast_def transform_twoDays)
qed

lemma fetch_london:
  "fetchWeatherData (Some ''k'') ''London'' (Inr londonCurrent) (Inr londonForecast) True = Inr london"
  by (simp add: fetchWeatherData_def current_london forecast_london london_def)

text \<open>
  Claim C10. The location of the merged snapshot is the one of the current-weather
  response (\<open>name\<close> and \<open>sys.country\<close>); the \<open>city\<close> of the forecast response
  is discarded: whatever city the forecast response names, the snapshot is the same.
\<close>

theorem snapshot_location_from_current_weather:
  assumes "fetchWeatherData key cityName (Inr currentResponse) (Inr forecastResponse) first = Inr snapshot"
  shows "\<exists>country. cr_sys currentResponse = Some country
           \<and> wd_location snapshot = \<lparr>loc_name = cr_name currentResponse, loc_country = country\<rparr>
           \<and> (\<forall>city'. fetchWeatherData key cityName (Inr currentResponse)
                  (Inr (forecastResponse\<lparr>fr_city := Some city'\<rparr>)) first = Inr snapshot)"
proof -
  from assms obtain cw fd where
    cw: "getCurrentWeather key cityName (Inr currentResponse) = Inr cw" and
    fd: "getForecast key cityName (Inr forecastResponse) = Inr fd" and
    snap: "snapshot = \<lparr>wd_location = c_location cw, wd_current = c_current cw, wd_forecast = f_forecast fd\<rparr>"
    by (auto simp: fetchWeatherData_def split: sum.splits if_splits)
  from cw obtain country where
    sys: "cr_sys currentResponse = Some country" and
    loc: "c_location cw = \<lparr>loc_name = cr_name currentResponse, loc_country = country\<rparr>"
    by (auto simp: getCurrentWeather_def transformCurrentWeatherData_def
        split: if_splits sum.splits option.splits list.splits prod.splits)
  have "\<exists>fd'. getForecast key cityName (Inr (forecastResponse\<lparr>fr_city := Some city'\<rparr>)) = Inr fd'
          \<and> f_forecast fd' = f_forecast fd" for city'
    using fd
    by (auto simp: getForecast_def transformForecastData_def
        split: if_splits sum.splits option.splits)
  then have "fetchWeatherData key cityName (Inr currentResponse)
                  (Inr (forecastResponse\<lparr>fr_city := Some city'\<rparr>)) first = Inr snapshot" for city'
  proof -
    obtain fd' where "getForecast key cityName (Inr (forecastResponse\<lparr>fr_city := Some city'\<rparr>)) = Inr fd'"
      and "f_forecast fd' = f_forecast fd"
      using \<open>\<And>city'. \<exists>fd'. getForecast key cityName (Inr (forecastResponse\<lparr>fr_city := Some city'\<rparr>)) = Inr fd'
          \<and> f_forecast fd' = f_forecast fd\<close> by blast
    with cw snap show ?thesis by (simp add: fetchWeatherData_def)
  qed
  with sys loc snap show ?thesis by simp
qed

theorem snapshot_location_from_current_weather_witness:
  "fetchWeatherData (Some ''k'') ''London'' (Inr londonCurrent) (Inr londonForecast) True = Inr london
   \<and> fr_city londonForecast = Some \<lparr>loc_name = ''London'', loc_country = ''CA''\<rparr>
   \<and> wd_location london = \<lparr>loc_name = ''London'', loc_country = ''GB''\<rparr>
   \<and> fetchWeatherData (Some ''k'') ''London'' (Inr londonCurrent)
        (Inr (londonForecast\<lparr>fr_city := Some \<lparr>loc_name = ''Paris'', loc_country = ''FR''\<rparr>\<rparr>)) True
       = Inr london"
  using snapshot_location_from_current_weather [OF fetch_london] fetch_london
  by (simp add: londonForecast_def londonCurrent_def)

section \<open>Properties of the cache and of the pending requests\<close>

lemma search_London:
  "handleSearch (initialApp (Some ''k'') None) ''London'' 0 = (Started 0, searching)"
  by (simp add: handleSearch_def initialApp_def getCachedWeatherData_def Let_def key_London
      searching_def)

text \<open>
  Claim C8. A call of \<open>handleSearch\<close> that starts a fetch stores the pending request
  under its key; when the call resumes, with success or with failure and in whatever
  state, the pending request of that key is gone afterwards; a failure leaves the cache
  as it was; and starting the fetch adds no cache entry.
\<close>

theorem inflight_marker_removed_and_failure_not_cached:
  assumes "handleSearch app0 cityName t0 = (Started p, app1)"
  shows "pendingRequests app1 (normalizedCityName cityName) = Some p
     \<and> pendingRequests (handleSearch_resume app cityName result now nowCleanup)
          (normalizedCityName cityName) = None
     \<and> weatherCache (handleSearch_resume app cityName (Inl error) now nowCleanup) = weatherCache app
     \<and> dom (weatherCache app1) \<subseteq> dom (weatherCache app0)"
proof -
  have started: "pendingRequests app1 (normalizedCityName cityName) = Some p"
    using assms
    by (auto simp: handleSearch_def Let_def split: if_splits prod.splits option.splits)
  have removed: "pendingRequests (handleSearch_resume app cityName result now nowCleanup)
          (normalizedCityName cityName) = None"
    by (cases result) (simp_all add: handleSearch_resume_def Let_def)
  have kept: "weatherCache (handleSearch_resume app cityName (Inl error) now nowCleanup) = weatherCache app"
    by (simp add: handleSearch_resume_def Let_def)
  have "dom (weatherCache app1) \<subseteq> dom (weatherCache app0)"
    using assms
    by (auto simp: handleSearch_def Let_def getCachedWeatherData_def
        split: if_splits prod.splits option.splits)
  with started removed kept show ?thesis by blast
qed

theorem inflight_marker_removed_and_failure_not_cached_witness:
  "handleSearch (initialApp (Some ''k'') None) ''London'' 0 = (Started 0, searching)
   \<and> pendingRequests searching ''london'' = Some 0
   \<and> pendingRequests
        (handleSearch_resume searching ''London'' (Inl (handleApiError (httpError 404))) 250 250)
        ''london'' = None
   \<and> pendingRequests (handleSearch_resume searching ''London'' (Inr london) 250 250) ''london'' = None
   \<and> weatherCache
        (handleSearch_resume searching ''London'' (Inl (handleApiError (httpError 404))) 250 250)
       = weatherCache searching"
  using inflight_marker_removed_and_failure_not_cached [OF search_London,
      of searching "Inl (handleApiError (httpError 404))" 250 250 "handleApiError (httpError 404)"]
    inflight_marker_removed_and_failure_not_cached [OF search_London,
      of searching "Inr london" 250 250 "handleApiError (httpError 404)"]
    search_London
  by (simp add: key_London)

text \<open>
  Claim C3. The time to live is 600,000 ms. After a fetch for a key has succeeded and
  its data was stored at time \<open>stored\<close>, a call for the same key at time \<open>now\<close>
  with \<open>now - stored < 600000\<close> ends with the stored data, displays it and calls the
  provider no further; with \<open>now - stored \<ge> 600000\<close> the entry is deleted and the
  call starts a new fetch. (The entry is stored and the cache cleaned under two readings
  of the clock; the entry survives the cleaning when they are less than the time to
  live apart.)
\<close>

theorem cache_round_trip:
  assumes "isInitialized app"
    and "nowCleanup - stored < cacheTimeout"
    and "normalizedCityName again = normalizedCityName cityName"
    and "app1 = handleSearch_resume app cityName (Inr weatherData) stored nowCleanup"
  shows "cacheTimeout = 600000
     \<and> (now - stored < cacheTimeout \<longrightarrow>
            handleSearch app1 again now =
              (CacheHit weatherData,
               app1\<lparr>displayed := Some weatherData, lastSearchedLocation := Some again\<rparr>))
     \<and> (now - stored \<ge> cacheTimeout \<longrightarrow>
            handleSearch app1 again now =
              (Started (length (fetchCalls app)),
               app1\<lparr>weatherCache := (weatherCache app1)(normalizedCityName cityName := None),
                    shownError := None,
                    fetchCalls := fetchCalls app @ [again],
                    pendingRequests :=
                      (pendingRequests app1)(normalizedCityName cityName \<mapsto> length (fetchCalls app))\<rparr>))"
proof -
  have "cacheTimeout = 600000" by (simp add: cacheTimeout_def)
  moreover have "now - stored < cacheTimeout \<longrightarrow>
            handleSearch app1 again now =
              (CacheHit weatherData,
               app1\<lparr>displayed := Some weatherData, lastSearchedLocation := Some again\<rparr>)"
    using assms
    by (auto simp: handleSearch_def handleSearch_resume_def Let_def getCachedWeatherData_def
        cacheWeatherData_def cleanupCache_def)
  moreover have "now - stored \<ge> cacheTimeout \<longrightarrow>
            handleSearch app1 again now =
              (Started (length (fetchCalls app)),
               app1\<lparr>weatherCache := (weatherCache app1)(normalizedCityName cityName := None),
                    shownError := None,
                    fetchCalls := fetchCalls app @ [again],
                    pendingRequests :=
                      (pendingRequests app1)(normalizedCityName cityName \<mapsto> length (fetchCalls app))\<rparr>)"
    using assms
    by (auto simp: handleSearch_def handleSearch_resume_def Let_def getCachedWeatherData_def
        cacheWeatherData_def cleanupCache_def)
  ultimately show ?thesis by blast
qed

theorem cache_round_trip_witness:
  "isInitialized searching \<and> (1000::int) - 1000 < cacheTimeout
   \<and> normalizedCityName ''london '' = normalizedCityName ''London''
   \<and> fst (handleSearch loaded ''london '' 600999) = CacheHit london
   \<and> fetchCalls (snd (handleSearch loaded ''london '' 600999)) = [''London'']
   \<and> fst (handleSearch loaded ''london '' 601000) = Started 1
   \<and> fetchCalls (snd (handleSearch loaded ''london '' 601000)) = [''London'', ''london '']
   \<and> weatherCache (snd (handleSearch loaded ''london '' 601000)) ''london'' = None"
proof -
  have i: "isInitialized searching" by (simp add: searching_def initialApp_def)
  have c: "(1000::int) - 1000 < cacheTimeout" by (simp add: cacheTimeout_def)
  have k: "normalizedCityName ''london '' = normalizedCityName ''London''"
    by (simp add: key_London key_london_space)
  have hit: "(600999::int) - 1000 < cacheTimeout" by (simp add: cacheTimeout_def)
  have miss: "(601000::int) - 1000 \<ge> cacheTimeout" by (simp add: cacheTimeout_def)
  note rt = cache_round_trip [OF i c k loaded_def]
  have f: "fetchCalls loaded = [''London'']" "fetchCalls searching = [''London'']"
    by (simp_all add: loaded_def searching_def handleSearch_resume_def Let_def initialApp_def)
  show ?thesis
    using rt [of 600999] rt [of 601000] hit miss f i c k by (simp add: key_London)
qed

lemma keysOf_append [simp]: "keysOf (xs @ ys) = keysOf xs @ keysOf ys"
  by (simp add: keysOf_def)

lemma keysOf_mem: "(p, c) \<in> set running \<Longrightarrow> normalizedCityName c \<in> set (keysOf running)"
  by (force simp: keysOf_def)

lemma distinct_map_remove1:
  assumes "distinct (map f xs)" and "x \<in> set xs"
  shows "distinct (map f (remove1 x xs))" and "f ` set (remove1 x xs) = f ` set xs - {f x}"
proof -
  have d: "distinct xs" and i: "inj_on f (set xs)"
    using assms(1) by (simp_all add: distinct_map)
  have s: "set (remove1 x xs) = set xs - {x}"
    using d by simp
  show "distinct (map f (remove1 x xs))"
    using d i s by (simp add: distinct_map inj_on_diff)
  show "f ` set (remove1 x xs) = f ` set xs - {f x}"
    using i assms(2) s by (auto simp: inj_on_def)
qed

lemma keysOf_remove1:
  assumes "distinct (keysOf running)" and "(p, c) \<in> set running"
  shows "distinct (keysOf (remove1 (p, c) running))"
    and "set (keysOf (remove1 (p, c) running)) = set (keysOf running) - {normalizedCityName c}"
  using distinct_map_remove1 [of "normalizedCityName \<circ> snd" running "(p, c)"] assms
  by (simp_all add: keysOf_def)

lemma keysOf_other:
  assumes "distinct (keysOf running)" and "(p, c) \<in> set running"
    and "(q, d) \<in> set (remove1 (p, c) running)"
  shows "normalizedCityName d \<noteq> normalizedCityName c"
  using keysOf_remove1(2) [OF assms(1,2)] keysOf_mem [OF assms(3)] by simp

lemma invariant_start: "invariant (initialApp key lastLocation, [])"
  by (simp add: invariant_def initialApp_def keysOf_def)

lemma handleSearch_effect:
  assumes h: "handleSearch app cityName now = (outcome, app')" and i: "isInitialized app"
  shows "isInitialized app'"
    and "\<And>k. weatherCache app k = None \<Longrightarrow> weatherCache app' k = None"
    and "(\<exists>p. outcome = Started p) \<or> pendingRequests app' = pendingRequests app"
    and "\<And>p. outcome = Started p \<Longrightarrow>
           pendingRequests app (normalizedCityName cityName) = None
           \<and> pendingRequests app' = (pendingRequests app)(normalizedCityName cityName \<mapsto> p)
           \<and> weatherCache app' (normalizedCityName cityName) = None
           \<and> fetchCalls app' = fetchCalls app @ [cityName]"
  using h i
  by (auto simp: handleSearch_def Let_def getCachedWeatherData_def
      split: if_splits prod.splits option.splits)

lemma invariant_search:
  assumes inv: "invariant (app, running)" and h: "handleSearch app cityName now = (outcome, app')"
  shows "invariant (app', (case outcome of Started p \<Rightarrow> running @ [(p, cityName)] | _ \<Rightarrow> running))"
proof -
  let ?key = "normalizedCityName cityName"
  have d: "distinct (keysOf running)" and i: "isInitialized app"
    and dm: "dom (pendingRequests app) = set (keysOf running)"
    and each: "\<And>p c. (p, c) \<in> set running \<Longrightarrow>
           pendingRequests app (normalizedCityName c) = Some p
           \<and> weatherCache app (normalizedCityName c) = None"
    using inv by (simp_all add: invariant_def)
  note e = handleSearch_effect [OF h i]
  show ?thesis
  proof (cases "\<exists>p. outcome = Started p")
    case True
    then obtain p where o: "outcome = Started p" by blast
    note st = e(4) [OF o]
    have fresh: "?key \<notin> set (keysOf running)"
      using st dm by (metis domIff)
    have d': "distinct (keysOf (running @ [(p, cityName)]))"
      using d fresh by (simp add: keysOf_def)
    have dm': "dom (pendingRequests app') = set (keysOf (running @ [(p, cityName)]))"
      using st dm by (simp add: keysOf_def)
    have each': "pendingRequests app' (normalizedCityName c) = Some q
           \<and> weatherCache app' (normalizedCityName c) = None"
      if m: "(q, c) \<in> set (running @ [(p, cityName)])" for q c
    proof (cases "(q, c) \<in> set running")
      case True
      then have "normalizedCityName c \<noteq> ?key" using fresh keysOf_mem by metis
      then show ?thesis using each [OF True] e(2) st by simp
    next
      case False
      then have "q = p" "c = cityName" using m by simp_all
      then show ?thesis using st by simp
    qed
    show ?thesis
      unfolding invariant_def using o e(1) d' dm' each' by simp
  next
    case False
    then have same: "pendingRequests app' = pendingRequests app" using e(3) by blast
    have r: "(case outcome of Started p \<Rightarrow> running @ [(p, cityName)] | _ \<Rightarrow> running) = running"
      using False by (cases outcome) simp_all
    show ?thesis
      unfolding invariant_def r using e(1) d dm each e(2) same by simp
  qed
qed

lemma invariant_settle:
  assumes "invariant (app, running)" and "(p, cityName) \<in> set running"
  shows "invariant (handleSearch_resume app cityName result now nowCleanup, remove1 (p, cityName) running)"
proof -
  let ?key = "normalizedCityName cityName"
  let ?app = "handleSearch_resume app cityName result now nowCleanup"
  let ?rest = "remove1 (p, cityName) running"
  have d: "distinct (keysOf running)" and i: "isInitialized app"
    and dm: "dom (pendingRequests app) = set (keysOf running)"
    using assms(1) by (simp_all add: invariant_def)
  have pend: "pendingRequests ?app = (pendingRequests app)(?key := None)"
    by (cases result) (simp_all add: handleSearch_resume_def Let_def)
  have init: "isInitialized ?app"
    using i by (cases result) (simp_all add: handleSearch_resume_def Let_def)
  have cache: "weatherCache app k = None \<Longrightarrow> k \<noteq> ?key \<Longrightarrow> weatherCache ?app k = None" for k
    by (cases result)
      (simp_all add: handleSearch_resume_def Let_def cacheWeatherData_def cleanupCache_def)
  have dom': "dom (pendingRequests ?app) = set (keysOf ?rest)"
    using keysOf_remove1(2) [OF d assms(2)] dm by (simp add: pend)
  have each: "pendingRequests ?app (normalizedCityName c) = Some q
           \<and> weatherCache ?app (normalizedCityName c) = None"
    if m: "(q, c) \<in> set ?rest" for q c
  proof -
    have ne: "normalizedCityName c \<noteq> ?key" using keysOf_other [OF d assms(2) m] .
    have "(q, c) \<in> set running" using m by (meson notin_set_remove1)
    then have "pendingRequests app (normalizedCityName c) = Some q"
      and "weatherCache app (normalizedCityName c) = None"
      using assms(1) by (auto simp: invariant_def)
    then show ?thesis using ne cache by (simp add: pend)
  qed
  show ?thesis
    unfolding invariant_def using init keysOf_remove1(1) [OF d assms(2)] dom' each by simp
qed

lemma invariant_joined: "invariant (app, running) \<Longrightarrow> invariant (handleSearch_joined app result, running)"
  by (cases result) (auto simp: invariant_def handleSearch_joined_def)

lemma invariant_cleared: "invariant (app, running) \<Longrightarrow> invariant (clearCache app, running)"
  by (auto simp: invariant_def clearCache_def)

lemma reachable_invariant: "reachable sys \<Longrightarrow> invariant sys"
proof (induction rule: reachable.induct)
  case (start key lastLocation)
  show ?case by (rule invariant_start)
next
  case (search app running cityName now outcome app')
  then show ?case by (simp add: invariant_search)
next
  case (settle app running p cityName result now nowCleanup)
  then show ?case by (simp add: invariant_settle)
next
  case (joined app running result)
  then show ?case by (simp add: invariant_joined)
next
  case (cleared app running)
  then show ?case by (simp add: invariant_cleared)
qed

lemma invariant_joins:
  assumes "invariant (app, running)" and "(p, c) \<in> set running"
    and "normalizedCityName cityName = normalizedCityName c"
  shows "handleSearch app cityName now = (Joined p, app)"
  using assms
  by (auto simp: invariant_def handleSearch_def Let_def getCachedWeatherData_def)

lemma reachableNet_reachable:
  "reachableNet sys \<Longrightarrow> reachable (fst sys, fst (snd sys))"
proof (induction rule: reachableNet.induct)
  case (net_start key lastLocation)
  show ?case by (simp add: reachable.start)
next
  case (net_search app running requests cityName now outcome app')
  then have "reachable (app',
      (case outcome of Started p \<Rightarrow> running @ [(p, cityName)] | _ \<Rightarrow> running))"
    using reachable.search [of app running cityName now outcome app'] by simp
  then show ?case by simp
next
  case (net_request_ends app running requests r)
  then show ?case by simp
next
  case (net_settle app running requests p cityName result now nowCleanup)
  then show ?case
    using reachable.settle [of app running p cityName result now nowCleanup] by simp
next
  case (net_joined app running requests result)
  then show ?case using reachable.joined [of app running result] by simp
next
  case (net_cleared app running requests)
  then show ?case using reachable.cleared [of app running] by simp
qed

text \<open>
  Claim C2, as the code has it. A fetch is a call of \<open>fetchWeatherData\<close>, pending from
  the call until the call of \<open>handleSearch\<close> that made it resumes and deletes the
  pending request. In every state of a run the suspended calls have pairwise different
  keys, and the keys with a pending request are exactly theirs: at most one fetch per
  key is pending. A call for a key with a pending fetch joins that fetch's promise and
  changes nothing. In particular, when a call starts a fetch (one call of
  \<open>fetchWeatherData\<close>) and a second call for the same key arrives before the first
  resumes, the second joins the first one's promise, and \<open>fetchWeatherData\<close> has been
  called once. Nothing is said of the HTTP requests of a fetch that has failed.
\<close>

theorem one_fetch_per_key:
  assumes "reachableNet (app, running, requests)"
  shows "distinct (map (normalizedCityName \<circ> snd) running)
     \<and> dom (pendingRequests app) = set (map (normalizedCityName \<circ> snd) running)
     \<and> (\<forall>p c cityName now. (p, c) \<in> set running \<and> normalizedCityName cityName = normalizedCityName c
            \<longrightarrow> handleSearch app cityName now = (Joined p, app))
     \<and> (\<forall>cityName now p app1 again later.
            handleSearch app cityName now = (Started p, app1)
            \<and> normalizedCityName again = normalizedCityName cityName
            \<longrightarrow> fetchCalls app1 = fetchCalls app @ [cityName]
               \<and> handleSearch app1 again later = (Joined p, app1))"
proof -
  have "reachable (app, running)" using reachableNet_reachable [OF assms] by simp
  then have inv: "invariant (app, running)" by (rule reachable_invariant)
  have a: "distinct (map (normalizedCityName \<circ> snd) running)"
    and b: "dom (pendingRequests app) = set (map (normalizedCityName \<circ> snd) running)"
    using inv by (simp_all add: invariant_def keysOf_def)
  have c: "handleSearch app cityName now = (Joined p, app)"
    if "(p, c) \<in> set running" "normalizedCityName cityName = normalizedCityName c"
    for p c cityName now
    using invariant_joins [OF inv that] .
  have d: "fetchCalls app1 = fetchCalls app @ [cityName]
               \<and> handleSearch app1 again later = (Joined p, app1)"
    if s: "handleSearch app cityName now = (Started p, app1)"
      and k: "normalizedCityName again = normalizedCityName cityName"
    for cityName now p app1 again later
  proof -
    have "invariant (app1, running @ [(p, cityName)])"
      using invariant_search [OF inv s] by simp
    then have "handleSearch app1 again later = (Joined p, app1)"
      using k by (intro invariant_joins [where c = cityName and running = "running @ [(p, cityName)]"]) simp_all
    moreover have "fetchCalls app1 = fetchCalls app @ [cityName]"
      using s by (auto simp: handleSearch_def Let_def split: if_splits prod.splits option.splits)
    ultimately show ?thesis by simp
  qed
  from a b c d show ?thesis by blast
qed

theorem one_fetch_per_key_witness:
  "reachableNet (initialApp (Some ''k'') None, [], [])
   \<and> handleSearch (initialApp (Some ''k'') None) ''London'' 0 = (Started 0, searching)
   \<and> normalizedCityName ''london '' = normalizedCityName ''London''
   \<and> fetchCalls searching = [''London'']
   \<and> handleSearch searching ''london '' 5 = (Joined 0, searching)"
proof -
  have r: "reachableNet (initialApp (Some ''k'') None, [], [])" by (rule reachableNet.net_start)
  have k: "normalizedCityName ''london '' = normalizedCityName ''London''"
    by (simp add: key_London key_london_space)
  show ?thesis
    using one_fetch_per_key [OF r] search_London k r by (simp add: initialApp_def)
qed

lemma retry_London: "handleSearch failed ''London'' 300 = (Started 1, retried)"
  by (simp add: handleSearch_def failed_def retried_def searching_def initialApp_def
      handleSearch_resume_def getCachedWeatherData_def Let_def key_London)

lemma requests_London:
  "requestsOf (initialApp (Some ''k'') None) p ''London''
     = [(p, ''London'', CurrentRequest), (p, ''London'', ForecastRequest)]"
  "requestsOf failed p ''London''
     = [(p, ''London'', CurrentRequest), (p, ''London'', ForecastRequest)]"
proof -
  have t: "trim ''London'' \<noteq> []" by code_simp
  show "requestsOf (initialApp (Some ''k'') None) p ''London''
     = [(p, ''London'', CurrentRequest), (p, ''London'', ForecastRequest)]"
    using t by (simp add: requestsOf_def initialApp_def)
  show "requestsOf failed p ''London''
     = [(p, ''London'', CurrentRequest), (p, ''London'', ForecastRequest)]"
    using t by (simp add: requestsOf_def failed_def searching_def initialApp_def
        handleSearch_resume_def Let_def)
qed

text \<open>
  Claim C2 as the specification states it fails for the HTTP requests. A first call for
  London opens its two requests; the current-weather request ends with status 404, so
  \<open>Promise.all\<close> rejects, the call resumes, deletes the pending request and shows the
  error with its retry button, while the forecast request of that call is still open.
  A second call for London then finds no pending request and opens two requests more:
  two forecast requests of the key \<open>london\<close> are open at once.
\<close>

theorem two_requests_of_one_key_counterexample:
  "reachableNet (retried, [(1, ''London'')],
      [(0, ''London'', ForecastRequest), (1, ''London'', CurrentRequest),
       (1, ''London'', ForecastRequest)])
   \<and> fetchCalls retried = [''London'', ''London'']
   \<and> normalizedCityName ''London'' = ''london''
   \<and> shownError failed = Some (handleWeatherError (handleApiError (httpError 404)))"
proof -
  let ?first = "[(0, ''London'', CurrentRequest), (0, ''London'', ForecastRequest)]"
  have s0: "reachableNet (initialApp (Some ''k'') None, [], [])" by (rule reachableNet.net_start)
  have s1: "reachableNet (searching, [(0, ''London'')], ?first)"
    using reachableNet.net_search [OF s0 search_London] by (simp add: requests_London)
  have s2: "reachableNet (searching, [(0, ''London'')], [(0, ''London'', ForecastRequest)])"
    using reachableNet.net_request_ends [OF s1, of "(0, ''London'', CurrentRequest)"] by simp
  have m: "maySettle (Inl (handleApiError (httpError 404))) 0 ''London''
      [(0, ''London'', ForecastRequest)]"
    by (simp add: maySettle_def)
  have s3: "reachableNet (failed, [], [(0, ''London'', ForecastRequest)])"
    using reachableNet.net_settle [OF s2 _ m, of 250 250] by (simp add: failed_def)
  have s4: "reachableNet (retried, [(1, ''London'')],
      [(0, ''London'', ForecastRequest), (1, ''London'', CurrentRequest),
       (1, ''London'', ForecastRequest)])"
    using reachableNet.net_search [OF s3 retry_London] by (simp add: requests_London)
  have f: "fetchCalls retried = [''London'', ''London'']" by (simp add: retried_def)
  have e: "shownError failed = Some (handleWeatherError (handleApiError (httpError 404)))"
    by (simp add: failed_def handleSearch_resume_def Let_def)
  from s4 f key_London e show ?thesis by (intro conjI)
qed

section \<open>Properties of the most frequent condition and icon\<close>

lemma set_firstBy: "set (firstBy f xs) \<subseteq> set xs"
  by (induction xs) auto

lemma image_firstBy: "f ` set (firstBy f xs) = f ` set xs"
proof (induction xs)
  case Nil
  show ?case by simp
next
  case (Cons x xs)
  have "f ` set (filter (\<lambda>y. f y \<noteq> f x) (firstBy f xs)) = f ` set (firstBy f xs) - {f x}"
    by auto
  then show ?case using Cons by auto
qed

lemma set_firstOccurrences: "set (firstOccurrences xs) = set xs"
  using image_firstBy [of "\<lambda>x. x" xs] by (simp add: firstOccurrences_def)

lemma distinct_map_firstBy: "distinct (map f (firstBy f xs))"
  by (induction xs) (auto simp: distinct_map_filter)

lemma firstOccurrences_snoc:
  "firstOccurrences (ks @ [k]) = (if k \<in> set ks then firstOccurrences ks else firstOccurrences ks @ [k])"
proof (induction ks)
  case Nil
  show ?case by (simp add: firstOccurrences_def)
next
  case (Cons a ks)
  have fo: "\<And>x xs. firstOccurrences (x # xs) = x # filter (\<lambda>y. y \<noteq> x) (firstOccurrences xs)"
    by (simp add: firstOccurrences_def)
  show ?case using Cons by (auto simp: fo)
qed

lemma set_objectKeys: "set (objectKeys obj) = fst ` set obj"
  by (auto simp: objectKeys_def)

lemma objectKeys_plain:
  "\<forall>k \<in> fst ` set obj. \<not> isArrayIndex k \<Longrightarrow> objectKeys obj = map fst obj"
proof -
  assume a: "\<forall>k \<in> fst ` set obj. \<not> isArrayIndex k"
  then have "filter isArrayIndex (map fst obj) = []"
    by (simp add: filter_empty_conv)
  moreover have "filter (\<lambda>k. \<not> isArrayIndex k) (map fst obj) = map fst obj"
    using a by (simp add: filter_id_conv)
  ultimately show ?thesis by (simp add: objectKeys_def)
qed

lemma foldl_pick_last_maximum:
  "\<exists>before after. k # ks = before @ foldl (\<lambda>a b. if cnt a > cnt b then a else b) k ks # after
     \<and> (\<forall>v \<in> set before. (cnt v :: nat) \<le> cnt (foldl (\<lambda>a b. if cnt a > cnt b then a else b) k ks))
     \<and> (\<forall>v \<in> set after. cnt v < cnt (foldl (\<lambda>a b. if cnt a > cnt b then a else b) k ks))"
proof (induction ks rule: rev_induct)
  case Nil
  show ?case by (intro exI [of _ "[]"]) simp
next
  case (snoc b ks)
  let ?step = "\<lambda>a b. if cnt a > cnt b then a else b"
  let ?r = "foldl ?step k ks"
  from snoc obtain before after where
    split: "k # ks = before @ ?r # after" and
    le: "\<forall>v \<in> set before. cnt v \<le> cnt ?r" and
    lt: "\<forall>v \<in> set after. cnt v < cnt ?r"
    by blast
  show ?case
  proof (cases "cnt ?r > cnt b")
    case True
    then have r: "foldl ?step k (ks @ [b]) = ?r" by simp
    have "k # ks @ [b] = before @ ?r # (after @ [b])" using split by simp
    moreover have "\<forall>v \<in> set (after @ [b]). cnt v < cnt ?r" using lt True by simp
    ultimately show ?thesis unfolding r using le by blast
  next
    case False
    then have r: "foldl ?step k (ks @ [b]) = b" by simp
    have le_r: "cnt ?r \<le> cnt b" using False by simp
    have all: "\<forall>v \<in> set (k # ks). cnt v \<le> cnt b"
    proof
      fix v assume "v \<in> set (k # ks)"
      then have "v \<in> set (before @ ?r # after)" using split by simp
      then consider "v \<in> set before" | "v = ?r" | "v \<in> set after" by auto
      then show "cnt v \<le> cnt b"
      proof cases
        case 1
        then have "cnt v \<le> cnt ?r" using le by blast
        then show ?thesis using le_r by linarith
      next
        case 2
        then show ?thesis using le_r by simp
      next
        case 3
        then have "cnt v < cnt ?r" using lt by blast
        then show ?thesis using le_r by linarith
      qed
    qed
    have "k # ks @ [b] = (k # ks) @ b # [] \<and> (\<forall>v \<in> set (k # ks). cnt v \<le> cnt b)
        \<and> (\<forall>v \<in> set ([]::'a list). cnt v < cnt b)"
      using all by simp
    then show ?thesis unfolding r by blast
  qed
qed

lemma reduce_pick_last_maximum:
  assumes "ks \<noteq> []"
  shows "\<exists>r before after. reduce (\<lambda>a b. if cnt a > cnt b then a else b) ks = Inr r
     \<and> ks = before @ r # after
     \<and> (\<forall>v \<in> set before. (cnt v :: nat) \<le> cnt r)
     \<and> (\<forall>v \<in> set after. cnt v < cnt r)"
proof -
  obtain k rest where ks: "ks = k # rest" using assms by (cases ks) auto
  show ?thesis
    unfolding ks using foldl_pick_last_maximum [of k rest cnt] by auto
qed

lemma foldl_cong_on:
  assumes "k \<in> S" and "set ks \<subseteq> S"
    and "\<And>a b. a \<in> S \<Longrightarrow> b \<in> S \<Longrightarrow> f a b = g a b"
    and "\<And>a b. a \<in> S \<Longrightarrow> b \<in> S \<Longrightarrow> g a b \<in> S"
  shows "foldl f k ks = foldl g k ks"
  using assms(1,2)
proof (induction ks arbitrary: k)
  case Nil
  show ?case by simp
next
  case (Cons b ks)
  have "f k b = g k b" using Cons.prems assms(3) by simp
  moreover have "g k b \<in> S" using Cons.prems assms(4) by simp
  ultimately show ?case using Cons by simp
qed

lemma plainKey_facts:
  assumes "plainKey c"
  shows "c \<noteq> ''__proto__''" and "inheritedFunction c = None"
  using assms by (auto simp: plainKey_def objectPrototypeNames_def inheritedFunction_def)

lemma frequencyOf_snoc: "frequencyOf (xs @ [x]) = countUp x (frequencyOf xs)"
  by (simp add: frequencyOf_def)

lemma keys_countUp_mono: "fst ` set f \<subseteq> fst ` set (countUp c f)"
proof (induction c f rule: countUp.induct)
  case (1 c)
  show ?case by simp
next
  case (2 c k v rest)
  then show ?case by auto
qed

lemma keys_countUp_mem: "c \<noteq> ''__proto__'' \<Longrightarrow> c \<in> fst ` set (countUp c f)"
proof (induction c f rule: countUp.induct)
  case (1 c)
  then show ?case by (simp split: option.splits)
next
  case (2 c k v rest)
  then show ?case by auto
qed

lemma keys_countUp_plain:
  "plainKey c \<Longrightarrow>
   map fst (countUp c f) = (if c \<in> fst ` set f then map fst f else map fst f @ [c])"
proof (induction c f rule: countUp.induct)
  case (1 c)
  then show ?case by (simp add: plainKey_facts)
next
  case (2 c k v rest)
  show ?case
  proof (cases "k = c")
    case True
    then show ?thesis by simp
  next
    case False
    then show ?thesis using 2 by auto
  qed
qed

lemma allCounts_countUp: "plainKey c \<Longrightarrow> allCounts f \<Longrightarrow> allCounts (countUp c f)"
proof (induction c f rule: countUp.induct)
  case (1 c)
  then show ?case by (simp add: plainKey_facts allCounts_def)
next
  case (2 c k v rest)
  then show ?case by (cases v) (auto simp: allCounts_def)
qed

lemma countOf_countUp:
  "plainKey c \<Longrightarrow> allCounts f \<Longrightarrow>
   countOf (countUp c f) k = (if k = c then countOf f k + 1 else countOf f k)"
proof (induction c f rule: countUp.induct)
  case (1 c)
  then show ?case by (simp add: plainKey_facts countOf_def)
next
  case (2 c k' v rest)
  then have r: "countOf (countUp c rest) k = (if k = c then countOf rest k + 1 else countOf rest k)"
    if "k' \<noteq> c" using that by (simp add: allCounts_def)
  from 2 obtain n where v: "v = Count n" by (cases v) (auto simp: allCounts_def)
  show ?case
  proof (cases "k' = c")
    case True
    then show ?thesis by (simp add: countOf_def v)
  next
    case False
    then show ?thesis using r [OF False] by (auto simp: countOf_def split: if_splits)
  qed
qed

lemma frequencyOf_plain:
  assumes "\<forall>v \<in> set xs. plainKey v"
  shows "allCounts (frequencyOf xs)"
    and "map fst (frequencyOf xs) = firstOccurrences xs"
    and "countOf (frequencyOf xs) k = count_list xs k"
  using assms
proof (induction xs rule: rev_induct)
  case Nil
  {
    case 1 show ?case by (simp add: frequencyOf_def allCounts_def)
  next
    case 2 show ?case by (simp add: frequencyOf_def firstOccurrences_def)
  next
    case 3 show ?case by (simp add: frequencyOf_def countOf_def)
  }
next
  case (snoc x xs)
  {
    case 1
    then show ?case using snoc(1) by (simp add: frequencyOf_snoc allCounts_countUp)
  next
    case 2
    then have p: "plainKey x" and r: "\<forall>v \<in> set xs. plainKey v" by simp_all
    have "fst ` set (frequencyOf xs) = set xs"
      using snoc(2) [OF r] set_firstOccurrences [of xs] by (metis list.set_map)
    then show ?case
      using snoc(2) [OF r] p by (simp add: frequencyOf_snoc keys_countUp_plain firstOccurrences_snoc)
  next
    case 3
    then have p: "plainKey x" and r: "\<forall>v \<in> set xs. plainKey v" by simp_all
    show ?case
      using snoc(1) [OF r] snoc(3) [OF r] p by (auto simp: frequencyOf_snoc countOf_countUp)
  }
qed

lemma jsGreater_counts:
  assumes "allCounts f" and "a \<in> fst ` set f" and "b \<in> fst ` set f"
  shows "jsGreater (map_of f a) (map_of f b) = (countOf f a > countOf f b)"
proof -
  have c: "\<exists>n. map_of f k = Some (Count n)" if "k \<in> fst ` set f" for k
  proof -
    from that obtain v where v: "map_of f k = Some v"
      by (metis map_of_eq_None_iff not_None_eq)
    then have "(k, v) \<in> set f" by (rule map_of_SomeD)
    then have "\<exists>n. v = Count n"
      using assms(1) by (auto simp: allCounts_def list_all_iff split: js_value.splits)
    with v show ?thesis by auto
  qed
  from c [OF assms(2)] c [OF assms(3)] show ?thesis by (auto simp: countOf_def)
qed

lemma reduce_by_counts:
  assumes "allCounts f"
  shows "reduce (\<lambda>a b. if jsGreater (map_of f a) (map_of f b) then a else b) (objectKeys f)
       = reduce (\<lambda>a b. if countOf f a > countOf f b then a else b) (objectKeys f)"
proof (cases "objectKeys f")
  case Nil
  then show ?thesis by simp
next
  case (Cons k ks)
  have "foldl (\<lambda>a b. if jsGreater (map_of f a) (map_of f b) then a else b) k ks
      = foldl (\<lambda>a b. if countOf f a > countOf f b then a else b) k ks"
  proof (rule foldl_cong_on [where S = "fst ` set f"])
    show "k \<in> fst ` set f" using Cons set_objectKeys [of f] by auto
    show "set ks \<subseteq> fst ` set f" using Cons set_objectKeys [of f] by auto
    show "(if jsGreater (map_of f a) (map_of f b) then a else b)
        = (if countOf f a > countOf f b then a else b)"
      if "a \<in> fst ` set f" "b \<in> fst ` set f" for a b
      using jsGreater_counts [OF assms that] by simp
    show "(if countOf f a > countOf f b then a else b) \<in> fst ` set f"
      if "a \<in> fst ` set f" "b \<in> fst ` set f" for a b
      using that by simp
  qed
  then show ?thesis by (simp add: Cons)
qed

lemma getMostFrequentIcon_eq: "getMostFrequentIcon xs = getMostFrequentCondition xs"
  by (simp add: getMostFrequentIcon_def getMostFrequentCondition_def)

lemma keys_frequencyOf_mem:
  assumes "x \<in> set xs" and "x \<noteq> ''__proto__''"
  shows "x \<in> fst ` set (frequencyOf xs)"
  using assms
proof (induction xs rule: rev_induct)
  case Nil
  then show ?case by simp
next
  case (snoc y ys)
  show ?case
  proof (cases "x = y")
    case True
    then show ?thesis using snoc.prems keys_countUp_mem [of y "frequencyOf ys"]
      by (simp add: frequencyOf_snoc)
  next
    case False
    then have "x \<in> fst ` set (frequencyOf ys)" using snoc by simp
    then show ?thesis using keys_countUp_mono [of "frequencyOf ys" y]
      by (auto simp: frequencyOf_snoc)
  qed
qed

lemma getMostFrequentCondition_total:
  assumes "x \<in> set xs" and "x \<noteq> ''__proto__''"
  shows "\<exists>r. getMostFrequentCondition xs = Inr r"
proof -
  have "x \<in> set (objectKeys (frequencyOf xs))"
    using keys_frequencyOf_mem [OF assms] by (simp add: set_objectKeys)
  then obtain k ks where "objectKeys (frequencyOf xs) = k # ks"
    by (cases "objectKeys (frequencyOf xs)") auto
  then show ?thesis by (simp add: getMostFrequentCondition_def Let_def)
qed

text \<open>
  What the inherited properties do to the selection: a key with a function's text for
  its count loses against every number, and \<open>__proto__\<close> never becomes a key.
\<close>

lemma inherited_keys_examples:
  "getMostFrequentCondition [''constructor'', ''constructor'', ''Rain''] = Inr ''Rain''
   \<and> getMostFrequentCondition [''__proto__''] = Inl TypeError
   \<and> getMostFrequentCondition [''Rain'', ''__proto__'', ''__proto__''] = Inr ''Rain''"
  by code_simp

text \<open>
  Claim C6, as the code has it. For a non-empty list of conditions (or icons) none of
  which names a property of \<open>Object.prototype\<close>, the selected value is one of the
  list and no value occurs more often. The reduction keeps the earlier key only when
  its count is strictly greater, so among the values tied for the highest count the last
  one in the order of \<open>Object.keys(frequency)\<close> is selected: every key before the
  selected one occurs at most as often, every key after it strictly less often. For
  values that are no array indices that order is the order of first occurrence in the
  list.
\<close>

theorem most_frequent_ties_go_to_last_key:
  assumes "conditions \<noteq> []" and "\<forall>v \<in> set conditions. plainKey v"
  shows "\<exists>r before after.
      getMostFrequentCondition conditions = Inr r \<and> getMostFrequentIcon conditions = Inr r
      \<and> objectKeys (frequencyOf conditions) = before @ r # after
      \<and> set (objectKeys (frequencyOf conditions)) = set conditions
      \<and> (\<forall>v \<in> set before. count_list conditions v \<le> count_list conditions r)
      \<and> (\<forall>v \<in> set after. count_list conditions v < count_list conditions r)
      \<and> ((\<forall>v \<in> set conditions. \<not> isArrayIndex v)
            \<longrightarrow> objectKeys (frequencyOf conditions) = firstOccurrences conditions)"
proof -
  let ?f = "frequencyOf conditions"
  note fp = frequencyOf_plain [OF assms(2)]
  have keys: "fst ` set ?f = set conditions"
    using fp(2) set_firstOccurrences [of conditions] by (metis list.set_map)
  have s: "set (objectKeys ?f) = set conditions"
    by (simp add: set_objectKeys keys)
  then have ne: "objectKeys ?f \<noteq> []" using assms(1) by auto
  obtain r before after where
    r: "reduce (\<lambda>a b. if countOf ?f a > countOf ?f b then a else b) (objectKeys ?f) = Inr r"
    and split: "objectKeys ?f = before @ r # after"
    and le: "\<forall>v \<in> set before. countOf ?f v \<le> countOf ?f r"
    and lt: "\<forall>v \<in> set after. countOf ?f v < countOf ?f r"
    using reduce_pick_last_maximum [OF ne, of "countOf ?f"] by blast
  have c: "getMostFrequentCondition conditions = Inr r"
    using r reduce_by_counts [OF fp(1)] by (simp add: getMostFrequentCondition_def Let_def)
  have plain: "(\<forall>v \<in> set conditions. \<not> isArrayIndex v)
            \<longrightarrow> objectKeys ?f = firstOccurrences conditions"
    using objectKeys_plain [of ?f] keys by (simp add: fp(2))
  have le': "\<forall>v \<in> set before. count_list conditions v \<le> count_list conditions r"
    using le by (simp add: fp(3))
  have lt': "\<forall>v \<in> set after. count_list conditions v < count_list conditions r"
    using lt by (simp add: fp(3))
  have i: "getMostFrequentIcon conditions = Inr r"
    using c by (simp add: getMostFrequentIcon_eq)
  show ?thesis
    by (intro exI [of _ r] exI [of _ before] exI [of _ after] conjI c i split s le' lt' plain)
qed

theorem most_frequent_ties_go_to_last_key_witness:
  "[''Clear'', ''Rain'', ''Clear'', ''Rain'', ''Clouds''] \<noteq> []
   \<and> list_all plainKey [''Clear'', ''Rain'', ''Clear'', ''Rain'', ''Clouds'']
   \<and> list_all (\<lambda>v. \<not> isArrayIndex v) [''Clear'', ''Rain'', ''Clear'', ''Rain'', ''Clouds'']
   \<and> getMostFrequentCondition [''Clear'', ''Rain'', ''Clear'', ''Rain'', ''Clouds''] = Inr ''Rain''
   \<and> getMostFrequentIcon [''Clear'', ''Rain'', ''Clear'', ''Rain'', ''Clouds''] = Inr ''Rain''
   \<and> objectKeys (frequencyOf [''Clear'', ''Rain'', ''Clear'', ''Rain'', ''Clouds''])
       = [''Clear'', ''Rain'', ''Clouds'']
   \<and> firstOccurrences [''Clear'', ''Rain'', ''Clear'', ''Rain'', ''Clouds'']
       = [''Clear'', ''Rain'', ''Clouds'']"
proof -
  let ?v = "[''Clear'', ''Rain'', ''Clear'', ''Rain'', ''Clouds'']"
  have ne: "?v \<noteq> []" by simp
  have pk: "list_all plainKey ?v" by code_simp
  have ni: "list_all (\<lambda>v. \<not> isArrayIndex v) ?v" by code_simp
  have c: "getMostFrequentCondition ?v = Inr ''Rain''" by code_simp
  have k: "objectKeys (frequencyOf ?v) = [''Clear'', ''Rain'', ''Clouds'']" by code_simp
  have f: "firstOccurrences ?v = [''Clear'', ''Rain'', ''Clouds'']" by code_simp
  have pk': "\<forall>v \<in> set ?v. plainKey v" using pk unfolding list_all_iff .
  from most_frequent_ties_go_to_last_key [OF ne pk'] c
  have "getMostFrequentIcon ?v = Inr ''Rain''" by auto
  with ne pk ni c k f show ?thesis by blast
qed

text \<open>
  Claim C6 as the specification states it fails: in \<open>Rain, Rain, Clouds, Clouds\<close>
  both values occur twice and \<open>Rain\<close> is met first, yet \<open>Clouds\<close> is selected.
\<close>

theorem most_frequent_tie_counterexample:
  "getMostFrequentCondition [''Rain'', ''Rain'', ''Clouds'', ''Clouds''] = Inr ''Clouds''
   \<and> getMostFrequentIcon [''10d'', ''04d''] = Inr ''04d''
   \<and> count_list [''Rain'', ''Rain'', ''Clouds'', ''Clouds''] ''Rain'' = 2
   \<and> count_list [''Rain'', ''Rain'', ''Clouds'', ''Clouds''] ''Clouds'' = 2
   \<and> firstOccurrences [''Rain'', ''Rain'', ''Clouds'', ''Clouds''] = [''Rain'', ''Clouds'']"
  by code_simp

section \<open>Properties of the forecast transformation\<close>

lemma distinct_firstOccurrences: "distinct (firstOccurrences xs)"
  using distinct_map_firstBy [of "\<lambda>x. x" xs] by (simp add: firstOccurrences_def)

lemma bucketOf_snoc_other:
  "dateOf y \<noteq> k \<Longrightarrow> bucketOf (xs @ [y]) k = bucketOf xs k"
  by (simp add: bucketOf_def samplesOn_def)

lemma bucketOf_snoc_same:
  "bucketOf (xs @ [y]) (dateOf y) =
     (bucketOf xs (dateOf y))
       \<lparr>b_temps := b_temps (bucketOf xs (dateOf y)) @ [tempOf y],
        b_conditions := b_conditions (bucketOf xs (dateOf y)) @ [w_main (hd (fi_weather y))],
        b_icons := b_icons (bucketOf xs (dateOf y)) @ [w_icon (hd (fi_weather y))]\<rparr>"
  by (simp add: bucketOf_def samplesOn_def)

lemma bucketOf_fresh:
  "dateOf y \<notin> set (map dateOf xs) \<Longrightarrow>
   bucketOf (xs @ [y]) (dateOf y) =
     \<lparr>b_date = dateOf y, b_temps = [tempOf y], b_conditions = [w_main (hd (fi_weather y))],
      b_icons = [w_icon (hd (fi_weather y))]\<rparr>"
proof -
  assume "dateOf y \<notin> set (map dateOf xs)"
  then have "filter (\<lambda>item. dateOf item = dateOf y) xs = []"
    by (induction xs) auto
  then show ?thesis by (simp add: bucketOf_def samplesOn_def)
qed

lemma pushSample_present:
  assumes "distinct keys" and "dateOf y \<in> set keys"
  shows "pushSample (dateOf y) (tempOf y) (w_main (hd (fi_weather y))) (w_icon (hd (fi_weather y)))
           (map (bucketOf xs) keys)
         = map (bucketOf (xs @ [y])) keys"
  using assms
proof (induction keys)
  case Nil
  then show ?case by simp
next
  case (Cons k keys)
  show ?case
  proof (cases "k = dateOf y")
    case True
    then have "dateOf y \<notin> set keys" using Cons.prems by simp
    then have "map (bucketOf (xs @ [y])) keys = map (bucketOf xs) keys"
      by (intro map_cong refl bucketOf_snoc_other) auto
    moreover have "b_date (bucketOf xs k) = k" by (simp add: bucketOf_def)
    ultimately show ?thesis using True bucketOf_snoc_same [of xs y] by simp
  next
    case False
    moreover have "b_date (bucketOf xs k) = k" by (simp add: bucketOf_def)
    ultimately show ?thesis using Cons by (simp add: bucketOf_snoc_other)
  qed
qed

lemma pushSample_absent:
  assumes "dateOf y \<notin> set keys"
  shows "pushSample (dateOf y) t c i (map (bucketOf xs) keys)
         = map (bucketOf (xs @ [y])) keys
           @ [\<lparr>b_date = dateOf y, b_temps = [t], b_conditions = [c], b_icons = [i]\<rparr>]"
  using assms
proof (induction keys)
  case Nil
  then show ?case by simp
next
  case (Cons k keys)
  moreover have "b_date (bucketOf xs k) = k" by (simp add: bucketOf_def)
  ultimately show ?case by (auto simp: bucketOf_snoc_other)
qed

lemma pushSample_bucketsOf:
  "pushSample (dateOf y) (tempOf y) (w_main (hd (fi_weather y))) (w_icon (hd (fi_weather y)))
     (bucketsOf xs) = bucketsOf (xs @ [y])"
proof (cases "dateOf y \<in> set (map dateOf xs)")
  case True
  then have "dateOf y \<in> set (firstOccurrences (map dateOf xs))"
    by (simp add: set_firstOccurrences)
  then show ?thesis
    using True pushSample_present [OF distinct_firstOccurrences, of y "map dateOf xs" xs]
    by (simp add: bucketsOf_def firstOccurrences_snoc)
next
  case False
  then have "dateOf y \<notin> set (firstOccurrences (map dateOf xs))"
    by (simp add: set_firstOccurrences)
  then show ?thesis
    using False pushSample_absent [of y "firstOccurrences (map dateOf xs)" _ _ _ xs]
      bucketOf_fresh [of y xs]
    by (simp add: bucketsOf_def firstOccurrences_snoc)
qed

lemma groupByDate_bucketsOf:
  "\<forall>item \<in> set ys. wellFormed item \<Longrightarrow> groupByDate ys (bucketsOf xs) = Inr (bucketsOf (xs @ ys))"
proof (induction ys arbitrary: xs)
  case Nil
  show ?case by simp
next
  case (Cons y ys)
  then have w: "wellFormed y" by simp
  then obtain t w0 ws where m: "fi_main y = Some t" and we: "fi_weather y = w0 # ws"
    by (auto simp: wellFormed_def neq_Nil_conv)
  have dk: "dateKey (fi_dt y) = Inr (dateOf y)"
    using w by (simp add: wellFormed_def dateKey_def dateOf_def)
  have "groupByDate (y # ys) (bucketsOf xs)
      = groupByDate ys (pushSample (dateOf y) t (w_main w0) (w_icon w0) (bucketsOf xs))"
    by (simp add: dk m we)
  also have "pushSample (dateOf y) t (w_main w0) (w_icon w0) (bucketsOf xs) = bucketsOf (xs @ [y])"
    using pushSample_bucketsOf [of y xs] m we by (simp add: tempOf_def)
  also have "groupByDate ys (bucketsOf (xs @ [y])) = Inr (bucketsOf ((xs @ [y]) @ ys))"
    using Cons by simp
  finally show ?case by simp
qed

lemma groupByDate_all:
  "\<forall>item \<in> set items. wellFormed item \<Longrightarrow> groupByDate items [] = Inr (bucketsOf items)"
  using groupByDate_bucketsOf [of items "[]"] by (simp add: bucketsOf_def firstOccurrences_def)

lemma mathMax_Max: "xs \<noteq> [] \<Longrightarrow> mathMax xs = Num (Max (set xs))"
proof (cases xs)
  case Nil
  assume "xs \<noteq> []"
  with Nil show ?thesis by simp
next
  case (Cons a list)
  show ?thesis unfolding Cons mathMax.simps Max.set_eq_fold ..
qed

lemma mathMin_Min: "xs \<noteq> [] \<Longrightarrow> mathMin xs = Num (Min (set xs))"
proof (cases xs)
  case Nil
  assume "xs \<noteq> []"
  with Nil show ?thesis by simp
next
  case (Cons a list)
  show ?thesis unfolding Cons mathMin.simps Min.set_eq_fold ..
qed

lemma mapThrowing_total:
  "\<forall>x \<in> set xs. f x = Inr (g x) \<Longrightarrow> mapThrowing f xs = Inr (map g xs)"
  by (induction xs) simp_all

lemma toForecastDay_bucketOf:
  assumes "k \<in> set (map dateOf items)" and wf: "\<forall>item \<in> set items. wellFormed item"
  shows "\<exists>c i. toForecastDay (bucketOf items k) =
      Inr \<lparr>fd_date = k,
           highTemp = Num (of_int (roundRat (Max (tempOf ` {item \<in> set items. dateOf item = k})))),
           lowTemp = Num (of_int (roundRat (Min (tempOf ` {item \<in> set items. dateOf item = k})))),
           fd_condition = c, fd_icon = i\<rparr>"
proof -
  from assms(1) obtain item where item: "item \<in> set items" "dateOf item = k" by auto
  then have on: "item \<in> set (samplesOn k items)" by (simp add: samplesOn_def)
  then have ne: "samplesOn k items \<noteq> []" by auto
  have w: "wellFormed item" using wf item by simp
  have s: "set (map tempOf (samplesOn k items)) = tempOf ` {item \<in> set items. dateOf item = k}"
    by (auto simp: samplesOn_def)
  have "w_main (hd (fi_weather item)) \<in> set (b_conditions (bucketOf items k))"
    using on by (simp add: bucketOf_def)
  moreover have "w_main (hd (fi_weather item)) \<noteq> ''__proto__''"
    using w by (simp add: wellFormed_def)
  ultimately obtain c where c: "getMostFrequentCondition (b_conditions (bucketOf items k)) = Inr c"
    using getMostFrequentCondition_total by blast
  have "w_icon (hd (fi_weather item)) \<in> set (b_icons (bucketOf items k))"
    using on by (simp add: bucketOf_def)
  moreover have "w_icon (hd (fi_weather item)) \<noteq> ''__proto__''"
    using w by (simp add: wellFormed_def)
  ultimately obtain i where i: "getMostFrequentIcon (b_icons (bucketOf items k)) = Inr i"
    using getMostFrequentCondition_total unfolding getMostFrequentIcon_eq by blast
  have hi: "mathMax (b_temps (bucketOf items k)) = Num (Max (tempOf ` {item \<in> set items. dateOf item = k}))"
    using mathMax_Max [of "map tempOf (samplesOn k items)"] ne s by (simp add: bucketOf_def)
  have lo: "mathMin (b_temps (bucketOf items k)) = Num (Min (tempOf ` {item \<in> set items. dateOf item = k}))"
    using mathMin_Min [of "map tempOf (samplesOn k items)"] ne s by (simp add: bucketOf_def)
  show ?thesis
    by (simp add: toForecastDay_def c i hi lo) (simp add: bucketOf_def)
qed

lemma firstBy_map: "map f (firstBy f xs) = firstOccurrences (map f xs)"
proof (induction xs)
  case Nil
  show ?case by (simp add: firstOccurrences_def)
next
  case (Cons x xs)
  have "filter (\<lambda>y. y \<noteq> f x) (map f (firstBy f xs)) = map f (filter (\<lambda>y. f y \<noteq> f x) (firstBy f xs))"
    by (simp add: filter_map comp_def)
  then show ?case using Cons by (simp add: firstOccurrences_def)
qed

lemma sorted_wrt_firstBy: "sorted_wrt R xs \<Longrightarrow> sorted_wrt R (firstBy f xs)"
proof (induction xs)
  case Nil
  show ?case by simp
next
  case (Cons x xs)
  then have "sorted_wrt R (filter (\<lambda>y. f y \<noteq> f x) (firstBy f xs))"
    by (simp add: sorted_wrt_filter)
  moreover have "\<forall>y \<in> set (filter (\<lambda>y. f y \<noteq> f x) (firstBy f xs)). R x y"
    using Cons.prems set_firstBy [of f xs] by auto
  ultimately show ?case by simp
qed

lemma distinct_of_map: "distinct (map f ys) \<Longrightarrow> distinct ys"
  by (simp add: distinct_map)

lemma chronological_days:
  assumes "sorted (map fi_dt items)"
  shows "\<exists>days. sorted_wrt (<) days
       \<and> take n (firstOccurrences (map dateOf items)) = map isoDate days
       \<and> set days \<subseteq> (\<lambda>item. utcDay (fi_dt item)) ` set items"
proof -
  let ?reps = "take n (firstBy dateOf items)"
  let ?days = "map (\<lambda>item. utcDay (fi_dt item)) ?reps"
  have "sorted_wrt (\<lambda>a b. fi_dt a \<le> fi_dt b) items"
    using assms by (simp add: sorted_map)
  then have "sorted_wrt (\<lambda>a b. fi_dt a \<le> fi_dt b) ?reps"
    by (intro sorted_wrt_take sorted_wrt_firstBy)
  then have "sorted_wrt (\<lambda>a b. utcDay (fi_dt a) \<le> utcDay (fi_dt b)) ?reps"
    by (rule sorted_wrt_mono_rel [rotated]) (simp add: utcDay_def zdiv_mono1)
  then have srt: "sorted ?days" by (simp add: sorted_map)
  have dates: "map isoDate ?days = take n (firstOccurrences (map dateOf items))"
    using firstBy_map [of dateOf items]
    by (simp add: take_map [symmetric] comp_def dateOf_def [abs_def])
  have "distinct (map dateOf (firstBy dateOf items))" by (rule distinct_map_firstBy)
  then have "distinct (take n (firstOccurrences (map dateOf items)))"
    by (simp add: firstBy_map)
  then have "distinct (map isoDate ?days)" by (simp only: dates)
  then have "distinct ?days" by (rule distinct_of_map)
  then have "sorted_wrt (<) ?days" using srt by (simp add: strict_sorted_iff)
  moreover have "set ?days \<subseteq> (\<lambda>item. utcDay (fi_dt item)) ` set items"
    using set_firstBy [of dateOf items] set_take_subset [of n "firstBy dateOf items"] by auto
  ultimately show ?thesis using dates by metis
qed

lemma two_dates_example:
  assumes d: "map dateOf items = [d1, d1, d1, d1, d2, d2, d2, d2]" and ne: "d1 \<noteq> d2"
    and t: "map tempOf items = [10, 12, 15, 9, 20, 22, 18, 16]"
  shows "take 5 (firstOccurrences (map dateOf items)) = [d1, d2]"
    and "tempOf ` {item \<in> set items. dateOf item = d1} = {10, 12, 15, 9}"
proof -
  show "take 5 (firstOccurrences (map dateOf items)) = [d1, d2]"
    using ne by (simp add: d firstOccurrences_def)
  from d t obtain i1 i2 i3 i4 i5 i6 i7 i8 where
    items: "items = [i1, i2, i3, i4, i5, i6, i7, i8]"
    by (auto simp: map_eq_Cons_conv)
  show "tempOf ` {item \<in> set items. dateOf item = d1} = {10, 12, 15, 9}"
    using d t ne unfolding items by auto
qed

lemma roundRat_int: "roundRat (of_int n) = n"
  by (simp add: roundRat_def) linarith

lemma roundRat_bounds:
  "of_int (roundRat x) \<le> x + 1 / 2 \<and> x + 1 / 2 < of_int (roundRat x) + 1"
  unfolding roundRat_def by linarith

lemma two_dates_temps:
  assumes f: "map fd_date forecast = [d1, d2]"
    and hi: "\<forall>day \<in> set forecast.
            highTemp day = Num (of_int (roundRat (Max (tempOf `
                {item \<in> set items. dateOf item = fd_date day}))))
            \<and> lowTemp day = Num (of_int (roundRat (Min (tempOf `
                {item \<in> set items. dateOf item = fd_date day}))))"
    and s: "tempOf ` {item \<in> set items. dateOf item = d1} = {10, 12, 15, 9}"
  shows "length forecast = 2 \<and> highTemp (forecast ! 0) = Num 15 \<and> lowTemp (forecast ! 0) = Num 9"
proof -
  from f obtain a b where fc: "forecast = [a, b]" and a: "fd_date a = d1"
    by (auto simp: map_eq_Cons_conv)
  have mx: "Max {10, 12, 15, 9 :: rat} = 15" by simp
  have mn: "Min {10, 12, 15, 9 :: rat} = 9" by simp
  have r15: "roundRat 15 = 15" using roundRat_int [of 15] by simp
  have r9: "roundRat 9 = 9" using roundRat_int [of 9] by simp
  have "highTemp a = Num 15" "lowTemp a = Num 9"
    using hi fc a s by (simp_all add: mx mn r15 r9)
  then show ?thesis using fc by simp
qed

text \<open>
  Claim C7, as the code has it. For a response whose samples are well formed,
  \<open>transformForecastData\<close> returns; its days are the first five UTC dates of the
  samples in the order of their first sample; each day's \<open>highTemp\<close> and
  \<open>lowTemp\<close> are the maximum and the minimum of the temperatures of the samples of
  that date, rounded to the nearest integer, a tie going up. The buckets are not sorted:
  when the samples come in the order of their timestamps, the days are the dates of
  strictly increasing day numbers, that is, in chronological order. In particular, eight
  samples on two dates, four and four, with the temperatures 10, 12, 15, 9, 20, 22, 18,
  16 give two days, the first with \<open>highTemp\<close> 15 and \<open>lowTemp\<close> 9.
\<close>

theorem forecast_groups_samples_by_utc_date:
  assumes wf: "\<forall>item \<in> set (fr_list apiResponse). wellFormed item"
    and city: "fr_city apiResponse = Some city"
  shows "\<exists>forecast.
      transformForecastData apiResponse = Inr \<lparr>f_location = city, f_forecast = forecast\<rparr>
      \<and> map fd_date forecast = take 5 (firstOccurrences (map dateOf (fr_list apiResponse)))
      \<and> (\<forall>day \<in> set forecast. \<exists>h l :: int.
            highTemp day = Num (of_int h) \<and> lowTemp day = Num (of_int l)
            \<and> of_int h \<le> Max (tempOf `
                {item \<in> set (fr_list apiResponse). dateOf item = fd_date day}) + 1 / 2
            \<and> Max (tempOf `
                {item \<in> set (fr_list apiResponse). dateOf item = fd_date day}) + 1 / 2 < of_int h + 1
            \<and> of_int l \<le> Min (tempOf `
                {item \<in> set (fr_list apiResponse). dateOf item = fd_date day}) + 1 / 2
            \<and> Min (tempOf `
                {item \<in> set (fr_list apiResponse). dateOf item = fd_date day}) + 1 / 2 < of_int l + 1)
      \<and> (sorted (map fi_dt (fr_list apiResponse)) \<longrightarrow>
            (\<exists>days. sorted_wrt (<) days \<and> map fd_date forecast = map isoDate days
               \<and> set days \<subseteq> (\<lambda>item. utcDay (fi_dt item)) ` set (fr_list apiResponse)))
      \<and> (\<forall>d1 d2. map dateOf (fr_list apiResponse) = [d1, d1, d1, d1, d2, d2, d2, d2] \<and> d1 \<noteq> d2
            \<and> map tempOf (fr_list apiResponse) = [10, 12, 15, 9, 20, 22, 18, 16]
            \<longrightarrow> length forecast = 2
               \<and> highTemp (forecast ! 0) = Num 15 \<and> lowTemp (forecast ! 0) = Num 9)"
proof -
  let ?items = "fr_list apiResponse"
  let ?keys = "take 5 (firstOccurrences (map dateOf ?items))"
  let ?g = "\<lambda>b. projr (toForecastDay b)"
  let ?forecast = "map ?g (take 5 (bucketsOf ?items))"
  let ?T = "\<lambda>k. tempOf ` {item \<in> set ?items. dateOf item = k}"
  have buckets: "take 5 (bucketsOf ?items) = map (bucketOf ?items) ?keys"
    by (simp add: bucketsOf_def take_map)
  have keys_in: "k \<in> set (map dateOf ?items)" if "k \<in> set ?keys" for k
    using that set_firstOccurrences [of "map dateOf ?items"] in_set_takeD by fastforce
  have day_of: "\<exists>c i. toForecastDay (bucketOf ?items k) =
      Inr \<lparr>fd_date = k,
           highTemp = Num (of_int (roundRat (Max (?T k)))),
           lowTemp = Num (of_int (roundRat (Min (?T k)))),
           fd_condition = c, fd_icon = i\<rparr>" if "k \<in> set ?keys" for k
    using toForecastDay_bucketOf [OF keys_in [OF that] wf] .
  have "\<forall>b \<in> set (take 5 (bucketsOf ?items)). toForecastDay b = Inr (?g b)"
    unfolding buckets using day_of by fastforce
  then have m: "mapThrowing toForecastDay (take 5 (bucketsOf ?items)) = Inr ?forecast"
    by (rule mapThrowing_total)
  have t: "transformForecastData apiResponse = Inr \<lparr>f_location = city, f_forecast = ?forecast\<rparr>"
    using groupByDate_all [OF wf] m city by (simp add: transformForecastData_def)
  have dates: "map fd_date ?forecast = ?keys"
  proof -
    have "fd_date (?g (bucketOf ?items k)) = k" if "k \<in> set ?keys" for k
      using day_of [OF that] by auto
    then show ?thesis unfolding buckets by (simp add: map_idI)
  qed
  have temps: "highTemp day = Num (of_int (roundRat (Max (?T (fd_date day)))))
            \<and> lowTemp day = Num (of_int (roundRat (Min (?T (fd_date day)))))"
    if "day \<in> set ?forecast" for day
  proof -
    from that obtain k where k: "k \<in> set ?keys" and d: "day = ?g (bucketOf ?items k)"
      unfolding buckets by auto
    show ?thesis using day_of [OF k] d by auto
  qed
  have temps': "\<forall>day \<in> set ?forecast.
            highTemp day = Num (of_int (roundRat (Max (?T (fd_date day)))))
            \<and> lowTemp day = Num (of_int (roundRat (Min (?T (fd_date day)))))"
    using temps by blast
  have rounded: "\<forall>day \<in> set ?forecast. \<exists>h l :: int.
            highTemp day = Num (of_int h) \<and> lowTemp day = Num (of_int l)
            \<and> of_int h \<le> Max (?T (fd_date day)) + 1 / 2
            \<and> Max (?T (fd_date day)) + 1 / 2 < of_int h + 1
            \<and> of_int l \<le> Min (?T (fd_date day)) + 1 / 2
            \<and> Min (?T (fd_date day)) + 1 / 2 < of_int l + 1"
  proof
    fix day assume d: "day \<in> set ?forecast"
    show "\<exists>h l :: int.
            highTemp day = Num (of_int h) \<and> lowTemp day = Num (of_int l)
            \<and> of_int h \<le> Max (?T (fd_date day)) + 1 / 2
            \<and> Max (?T (fd_date day)) + 1 / 2 < of_int h + 1
            \<and> of_int l \<le> Min (?T (fd_date day)) + 1 / 2
            \<and> Min (?T (fd_date day)) + 1 / 2 < of_int l + 1"
      using temps [OF d] roundRat_bounds [of "Max (?T (fd_date day))"]
        roundRat_bounds [of "Min (?T (fd_date day))"]
      by (intro exI [of _ "roundRat (Max (?T (fd_date day)))"]
          exI [of _ "roundRat (Min (?T (fd_date day)))"]) simp
  qed
  have chrono: "sorted (map fi_dt ?items) \<longrightarrow>
            (\<exists>days. sorted_wrt (<) days \<and> map fd_date ?forecast = map isoDate days
               \<and> set days \<subseteq> (\<lambda>item. utcDay (fi_dt item)) ` set ?items)"
    using chronological_days [of ?items 5] dates by simp
  have example: "length ?forecast = 2
               \<and> highTemp (?forecast ! 0) = Num 15 \<and> lowTemp (?forecast ! 0) = Num 9"
    if d: "map dateOf ?items = [d1, d1, d1, d1, d2, d2, d2, d2]" and ne: "d1 \<noteq> d2"
      and ts: "map tempOf ?items = [10, 12, 15, 9, 20, 22, 18, 16]" for d1 d2
  proof -
    have "map fd_date ?forecast = [d1, d2]"
      using dates two_dates_example(1) [OF d ne ts] by simp
    then show ?thesis
      using temps' two_dates_example(2) [OF d ne ts] by (rule two_dates_temps)
  qed
  have example': "\<forall>d1 d2. map dateOf ?items = [d1, d1, d1, d1, d2, d2, d2, d2] \<and> d1 \<noteq> d2
            \<and> map tempOf ?items = [10, 12, 15, 9, 20, 22, 18, 16]
            \<longrightarrow> length ?forecast = 2
               \<and> highTemp (?forecast ! 0) = Num 15 \<and> lowTemp (?forecast ! 0) = Num 9"
  proof (intro allI impI)
    fix d1 d2
    assume a: "map dateOf ?items = [d1, d1, d1, d1, d2, d2, d2, d2] \<and> d1 \<noteq> d2
            \<and> map tempOf ?items = [10, 12, 15, 9, 20, 22, 18, 16]"
    from a have x: "map dateOf ?items = [d1, d1, d1, d1, d2, d2, d2, d2]" by (rule conjunct1)
    from a have y: "d1 \<noteq> d2" by (rule conjunct2 [THEN conjunct1])
    from a have z: "map tempOf ?items = [10, 12, 15, 9, 20, 22, 18, 16]"
      by (rule conjunct2 [THEN conjunct2])
    show "length ?forecast = 2
               \<and> highTemp (?forecast ! 0) = Num 15 \<and> lowTemp (?forecast ! 0) = Num 9"
      by (rule example [OF x y z])
  qed
  show ?thesis
    by (rule exI [of _ ?forecast]) (intro conjI t dates rounded chrono example')
qed

lemma transform_halves:
  "transformForecastData halves
     = Inr \<lparr>f_location = \<lparr>loc_name = ''London'', loc_country = ''GB''\<rparr>,
            f_forecast =
              [\<lparr>fd_date = ''2023-11-15'', highTemp = Num 15, lowTemp = Num (- 2),
                fd_condition = ''Clouds'', fd_icon = ''04d''\<rparr>]\<rparr>"
  by code_simp

theorem forecast_groups_samples_by_utc_date_witness:
  "list_all wellFormed (fr_list londonForecast)
   \<and> fr_city londonForecast = Some \<lparr>loc_name = ''London'', loc_country = ''CA''\<rparr>
   \<and> sorted (map fi_dt (fr_list londonForecast))
   \<and> map dateOf (fr_list londonForecast)
       = [''2023-11-15'', ''2023-11-15'', ''2023-11-15'', ''2023-11-15'',
          ''2023-11-16'', ''2023-11-16'', ''2023-11-16'', ''2023-11-16'']
   \<and> map tempOf (fr_list londonForecast) = [10, 12, 15, 9, 20, 22, 18, 16]
   \<and> transformForecastData londonForecast
       = Inr \<lparr>f_location = \<lparr>loc_name = ''London'', loc_country = ''CA''\<rparr>, f_forecast = londonDays\<rparr>
   \<and> map fd_date londonDays = [''2023-11-15'', ''2023-11-16'']
   \<and> length londonDays = 2
   \<and> highTemp (londonDays ! 0) = Num 15 \<and> lowTemp (londonDays ! 0) = Num 9
   \<and> map tempOf (fr_list halves) = [29 / 2, - 5 / 2, 87 / 10]
   \<and> transformForecastData halves
       = Inr \<lparr>f_location = \<lparr>loc_name = ''London'', loc_country = ''GB''\<rparr>,
              f_forecast =
                [\<lparr>fd_date = ''2023-11-15'', highTemp = Num 15, lowTemp = Num (- 2),
                  fd_condition = ''Clouds'', fd_icon = ''04d''\<rparr>]\<rparr>"
proof -
  have wf: "list_all wellFormed (fr_list londonForecast)" by code_simp
  have city: "fr_city londonForecast = Some \<lparr>loc_name = ''London'', loc_country = ''CA''\<rparr>"
    by (simp add: londonForecast_def)
  have srt: "sorted (map fi_dt (fr_list londonForecast))"
    by (simp add: londonForecast_def twoDays_def sample_def)
  have ds: "map dateOf (fr_list londonForecast)
       = [''2023-11-15'', ''2023-11-15'', ''2023-11-15'', ''2023-11-15'',
          ''2023-11-16'', ''2023-11-16'', ''2023-11-16'', ''2023-11-16'']"
    by code_simp
  have ts: "map tempOf (fr_list londonForecast) = [10, 12, 15, 9, 20, 22, 18, 16]"
    by (simp add: londonForecast_def twoDays_def sample_def tempOf_def)
  have th: "map tempOf (fr_list halves) = [29 / 2, - 5 / 2, 87 / 10]"
    by (simp add: halves_def sample_def tempOf_def)
  have ne: "''2023-11-15'' \<noteq> ''2023-11-16''" by simp
  have wf': "\<forall>item \<in> set (fr_list londonForecast). wellFormed item"
    using wf unfolding list_all_iff .
  from forecast_groups_samples_by_utc_date [OF wf' city] obtain forecast where
    t: "transformForecastData londonForecast
          = Inr \<lparr>f_location = \<lparr>loc_name = ''London'', loc_country = ''CA''\<rparr>, f_forecast = forecast\<rparr>"
    and d: "map fd_date forecast = take 5 (firstOccurrences (map dateOf (fr_list londonForecast)))"
    and e: "\<forall>d1 d2. map dateOf (fr_list londonForecast) = [d1, d1, d1, d1, d2, d2, d2, d2] \<and> d1 \<noteq> d2
            \<and> map tempOf (fr_list londonForecast) = [10, 12, 15, 9, 20, 22, 18, 16]
            \<longrightarrow> length forecast = 2
               \<and> highTemp (forecast ! 0) = Num 15 \<and> lowTemp (forecast ! 0) = Num 9"
    by blast
  have f: "forecast = londonDays" using t by (simp add: transform_twoDays)
  note ex = e [unfolded f, rule_format, OF conjI [OF ds conjI [OF ne ts]]]
  have dd: "map fd_date londonDays = [''2023-11-15'', ''2023-11-16'']"
    using d unfolding f ds by (simp add: firstOccurrences_def)
  show ?thesis
    by (intro conjI wf city srt ds ts transform_twoDays dd ex [THEN conjunct1]
        ex [THEN conjunct2, THEN conjunct1] ex [THEN conjunct2, THEN conjunct2]
        th transform_halves)
qed

text \<open>
  Claim C7 as the specification states it fails: the days are not put in chronological
  order. Two well-formed samples, the one of 16 November before the one of 15 November,
  give the day of 16 November first.
\<close>

theorem forecast_order_counterexample:
  "list_all wellFormed (fr_list outOfOrder)
   \<and> map fi_dt (fr_list outOfOrder) = [1700092800, 1700006400]
   \<and> transformForecastData outOfOrder
       = Inr \<lparr>f_location = \<lparr>loc_name = ''London'', loc_country = ''GB''\<rparr>,
              f_forecast =
                [\<lparr>fd_date = ''2023-11-16'', highTemp = Num 20, lowTemp = Num 20,
                  fd_condition = ''Clear'', fd_icon = ''01d''\<rparr>,
                 \<lparr>fd_date = ''2023-11-15'', highTemp = Num 10, lowTemp = Num 10,
                  fd_condition = ''Rain'', fd_icon = ''10d''\<rparr>]\<rparr>"
  by code_simp

end
